theory Spec2Isabelle
  imports Main "HOL-Library.Signed_Division"
begin

section \<open>JavaScript values\<close>

text \<open>
  The directives are plain JavaScript (\<^verbatim>\<open>ng_if.mjs\<close>, \<^verbatim>\<open>ng_for_of.mjs\<close>): their inputs are
  arbitrary values, tested for truthiness, for \<^verbatim>\<open>!= null\<close>, with \<^verbatim>\<open>typeof\<close> and by property
  access. Numbers are modelled as integers plus \<^verbatim>\<open>NaN\<close> (the directives only count views),
  functions are opaque and carry an identity, objects are property lists in insertion order.

  Naming: a private member \<^verbatim>\<open>_x\<close> of a class is \<open>p_x\<close> here (an Isabelle name cannot start
  with an underscore), an input setter \<^verbatim>\<open>set x(v)\<close> is \<open>set_x\<close>, a getter \<^verbatim>\<open>get x()\<close> is
  \<open>x_get\<close>, and \<^verbatim>\<open>$implicit\<close> is \<open>implicit\<close>.
\<close>

datatype jsval =
    JUndefined
  | JNull
  | JBool bool
  | JNum int
  | JNaN
  | JBigInt int
  | JStr string
  | JFun nat
  | JArr "jsval list"
  | JObj "(string \<times> jsval) list"

text \<open>\<^verbatim>\<open>if (v)\<close>, \<^verbatim>\<open>!v\<close>: ToBoolean.\<close>

fun js_truthy :: "jsval \<Rightarrow> bool" where
  "js_truthy JUndefined = False"
| "js_truthy JNull = False"
| "js_truthy (JBool b) = b"
| "js_truthy (JNum n) = (n \<noteq> 0)"
| "js_truthy JNaN = False"
| "js_truthy (JBigInt n) = (n \<noteq> 0)"
| "js_truthy (JStr s) = (s \<noteq> [])"
| "js_truthy (JFun f) = True"
| "js_truthy (JArr xs) = True"
| "js_truthy (JObj ps) = True"

text \<open>\<^verbatim>\<open>v == null\<close>: true of \<^verbatim>\<open>null\<close> and \<^verbatim>\<open>undefined\<close> only.\<close>

fun js_nullish :: "jsval \<Rightarrow> bool" where
  "js_nullish JUndefined = True"
| "js_nullish JNull = True"
| "js_nullish v = False"

fun js_typeof :: "jsval \<Rightarrow> string" where
  "js_typeof JUndefined = ''undefined''"
| "js_typeof JNull = ''object''"
| "js_typeof (JBool b) = ''boolean''"
| "js_typeof (JNum n) = ''number''"
| "js_typeof JNaN = ''number''"
| "js_typeof (JBigInt n) = ''bigint''"
| "js_typeof (JStr s) = ''string''"
| "js_typeof (JFun f) = ''function''"
| "js_typeof (JArr xs) = ''object''"
| "js_typeof (JObj ps) = ''object''"

text \<open>
  \<^verbatim>\<open>v.name\<close> on a value that is not \<^verbatim>\<open>null\<close> or \<^verbatim>\<open>undefined\<close>: the property of an object, and
  \<^verbatim>\<open>undefined\<close> where there is none (primitives, functions and arrays carry no own property
  in this model). On \<^verbatim>\<open>null\<close> and \<^verbatim>\<open>undefined\<close> the access throws a TypeError.
  \<open>Thrown v\<close> is a value thrown by code the model does not see (a method of a value).
\<close>

datatype error =
    TypeError
  | TemplateRefError string jsval
  | NgForDifferError jsval
  | FindDifferError jsval
  | DiffError jsval
  | IndexOutOfRange
  | JsonTypeError jsval
  | Thrown jsval

fun js_get :: "jsval \<Rightarrow> string \<Rightarrow> error + jsval" where
  "js_get JUndefined name = Inl TypeError"
| "js_get JNull name = Inl TypeError"
| "js_get (JObj ps) name = (case map_of ps name of None \<Rightarrow> Inr JUndefined | Some v \<Rightarrow> Inr v)"
| "js_get v name = Inr JUndefined"

section \<open>NgForOfContext\<close>

text \<open>
  \<^verbatim>\<open>
  export class NgForOfContext {
      constructor($implicit, ngForOf, index, count) { ... }
      get first() { return this.index === 0; }
      get last() { return this.index === this.count - 1; }
      get even() { return this.index % 2 === 0; }
      get odd() { return !this.even; }
  }
  \<close>
  \<open>index\<close> and \<open>count\<close> are view positions and lengths: numbers with integer values.
  JavaScript's \<^verbatim>\<open>%\<close> truncates towards zero (\<^verbatim>\<open>-1 % 2\<close> is \<^verbatim>\<open>-1\<close>): it is \<open>smod\<close>, not \<open>mod\<close>,
  and it is exact. A JavaScript number is an IEEE double: \<^verbatim>\<open>this.count - 1\<close> is the double
  nearest to the difference, ties to the even significand (53 bits). The integers of
  magnitude up to \<open>2^53 - 1\<close> are the safe integers (\<^verbatim>\<open>Number.isSafeInteger\<close>).
\<close>

record NgForOfContext =
  implicit :: jsval
  ngForOf :: jsval
  index :: int
  count :: int

definition NgForOfContext_new :: "jsval \<Rightarrow> jsval \<Rightarrow> int \<Rightarrow> int \<Rightarrow> NgForOfContext" where
  "NgForOfContext_new i f idx cnt = \<lparr>implicit = i, ngForOf = f, index = idx, count = cnt\<rparr>"

definition first_get :: "NgForOfContext \<Rightarrow> bool" where
  "first_get c = (index c = 0)"

fun bit_length :: "nat \<Rightarrow> nat" where
  "bit_length n = (if n = 0 then 0 else Suc (bit_length (n div 2)))"

declare bit_length.simps [simp del]

definition double_round :: "int \<Rightarrow> int" where
  "double_round k =
     (let a = nat \<bar>k\<bar>; n = bit_length a
      in if n \<le> 53 then k
         else (let u = 2 ^ (n - 53); q = a div u; r = a mod u;
                   q' = (if 2 * r < u then q
                         else if u < 2 * r then q + 1
                         else if even q then q else q + 1)
               in sgn k * int (q' * u)))"

definition safe_integer :: "int \<Rightarrow> bool" where
  "safe_integer k = (\<bar>k\<bar> \<le> 2 ^ 53 - 1)"

definition last_get :: "NgForOfContext \<Rightarrow> bool" where
  "last_get c = (index c = double_round (count c - 1))"

definition even_get :: "NgForOfContext \<Rightarrow> bool" where
  "even_get c = (index c smod 2 = 0)"

definition odd_get :: "NgForOfContext \<Rightarrow> bool" where
  "odd_get c = (\<not> even_get c)"

section \<open>The host's view container\<close>

text \<open>
  \<^verbatim>\<open>ViewContainerRef\<close> and \<^verbatim>\<open>EmbeddedViewRef\<close> belong to the rendering host, not to the
  directives. The directives use \<^verbatim>\<open>clear\<close>, \<^verbatim>\<open>createEmbeddedView\<close>, \<^verbatim>\<open>remove\<close>, \<^verbatim>\<open>get\<close>,
  \<^verbatim>\<open>move\<close> and \<^verbatim>\<open>length\<close>; the container is modelled as the list of its views, a counter
  that gives every new view its identity, and the log of the mutating calls it carried out.
  Objects passed by reference (a context object) are addresses.
\<close>

type_synonym ref = nat

record EmbeddedViewRef =
  view_id :: nat
  view_template :: jsval
  view_context :: ref

datatype vc_call =
    Clear
  | CreateEmbeddedView jsval ref "nat option"
  | Remove "nat option"
  | Move nat nat

record ViewContainerRef =
  views :: "EmbeddedViewRef list"
  next_view_id :: nat
  calls :: "vc_call list"

definition clear :: "ViewContainerRef \<Rightarrow> ViewContainerRef" where
  "clear vc = vc\<lparr>views := [], calls := calls vc @ [Clear]\<rparr>"

text \<open>
  \<^verbatim>\<open>createEmbeddedView(templateRef, context, index)\<close> calls
  \<^verbatim>\<open>templateRef.createEmbeddedView(context)\<close>, a TypeError when \<^verbatim>\<open>templateRef\<close> is \<^verbatim>\<open>null\<close> or
  \<^verbatim>\<open>undefined\<close> or has no such method, and inserts the new view: at the end when \<^verbatim>\<open>index\<close> is
  \<^verbatim>\<open>undefined\<close>, at \<^verbatim>\<open>index\<close> otherwise; an index beyond the end is refused.
\<close>

definition createEmbeddedView ::
  "jsval \<Rightarrow> ref \<Rightarrow> nat option \<Rightarrow> ViewContainerRef \<Rightarrow> error + (EmbeddedViewRef \<times> ViewContainerRef)" where
  "createEmbeddedView templateRef ctx idx vc =
     (case js_get templateRef ''createEmbeddedView'' of
        Inl e \<Rightarrow> Inl e
      | Inr m \<Rightarrow>
          if js_typeof m \<noteq> ''function'' then Inl TypeError
          else
            (let v = \<lparr>view_id = next_view_id vc, view_template = templateRef, view_context = ctx\<rparr>;
                 i = (case idx of None \<Rightarrow> length (views vc) | Some k \<Rightarrow> k)
             in if i \<le> length (views vc)
                then Inr (v, vc\<lparr>views := take i (views vc) @ v # drop i (views vc),
                                next_view_id := Suc (next_view_id vc),
                                calls := calls vc @ [CreateEmbeddedView templateRef ctx idx]\<rparr>)
                else Inl IndexOutOfRange))"

section \<open>NgIf\<close>

text \<open>
  \<^verbatim>\<open>
  export class NgIfContext {
      constructor() { this.$implicit = null; this.ngIf = null; }
  }
  \<close>
\<close>

record NgIfContext =
  ctx_implicit :: jsval
  ctx_ngIf :: jsval

definition NgIfContext_new :: NgIfContext where
  "NgIfContext_new = \<lparr>ctx_implicit = JNull, ctx_ngIf = JNull\<rparr>"

text \<open>
  The directive's state. \<open>if_context\<close> holds the fields of the one context object the
  directive owns; \<open>if_context_ref\<close> is that object's address, which is what the views
  receive.
\<close>

record NgIf =
  if_viewContainer :: ViewContainerRef
  if_context_ref :: ref
  if_context :: NgIfContext
  if_thenTemplateRef :: jsval
  if_elseTemplateRef :: jsval
  if_thenViewRef :: "EmbeddedViewRef option"
  if_elseViewRef :: "EmbeddedViewRef option"

text \<open>
  \<^verbatim>\<open>
  constructor(_viewContainer, templateRef) {
      this._viewContainer = _viewContainer;
      this._context = new NgIfContext();
      this._thenTemplateRef = null;
      this._elseTemplateRef = null;
      this._thenViewRef = null;
      this._elseViewRef = null;
      this._thenTemplateRef = templateRef;
  }
  \<close>
  The address of the new context object is the runtime's choice: a parameter.
\<close>

definition NgIf_new :: "ViewContainerRef \<Rightarrow> jsval \<Rightarrow> ref \<Rightarrow> NgIf" where
  "NgIf_new viewContainer templateRef r =
     \<lparr>if_viewContainer = viewContainer, if_context_ref = r, if_context = NgIfContext_new,
      if_thenTemplateRef = templateRef, if_elseTemplateRef = JNull,
      if_thenViewRef = None, if_elseViewRef = None\<rparr>"

text \<open>
  \<^verbatim>\<open>
  function assertTemplate(property, templateRef) {
      const isTemplateRefOrNull = !!(!templateRef || templateRef.createEmbeddedView);
      if (!isTemplateRefOrNull) {
          throw new Error(`${property} must be a TemplateRef, but received
            '${stringify(templateRef)}'.`);
      }
  }
  \<close>
  \<^verbatim>\<open>stringify\<close> is imported from the host framework and is not in the sources: it is a
  parameter, \<open>None\<close> where it returns the text of a value and \<open>Some e\<close> where it throws \<open>e\<close>
  (it calls the value's \<^verbatim>\<open>toString\<close>). The message is built before the Error is: where
  \<^verbatim>\<open>stringify\<close> throws, that is what \<^verbatim>\<open>assertTemplate\<close> throws. The Error itself is recorded by
  the property and the value it is about.
\<close>

definition assertTemplate :: "(jsval \<Rightarrow> error option) \<Rightarrow> string \<Rightarrow> jsval \<Rightarrow> error + unit" where
  "assertTemplate stringify property templateRef =
     (if \<not> js_truthy templateRef then Inr ()
      else (case js_get templateRef ''createEmbeddedView'' of
              Inl e \<Rightarrow> Inl e
            | Inr m \<Rightarrow> if js_truthy m then Inr ()
                       else (case stringify templateRef of
                               Some e \<Rightarrow> Inl e
                             | None \<Rightarrow> Inl (TemplateRefError property templateRef))))"

text \<open>
  \<^verbatim>\<open>
  _updateView() {
      if (this._context.$implicit) {
          if (!this._thenViewRef) {
              this._viewContainer.clear();
              this._elseViewRef = null;
              if (this._thenTemplateRef) {
                  this._thenViewRef =
                      this._viewContainer.createEmbeddedView(this._thenTemplateRef, this._context);
              }
          }
      }
      else {
          if (!this._elseViewRef) {
              this._viewContainer.clear();
              this._thenViewRef = null;
              if (this._elseTemplateRef) {
                  this._elseViewRef =
                      this._viewContainer.createEmbeddedView(this._elseTemplateRef, this._context);
              }
          }
      }
  }
  \<close>
  A call returns its outcome and the state it leaves: what was written before a throw stays
  written.
\<close>

definition updateView :: "NgIf \<Rightarrow> (error + unit) \<times> NgIf" where
  "updateView s =
     (if js_truthy (ctx_implicit (if_context s)) then
        (if if_thenViewRef s = None then
           (let s1 = s\<lparr>if_viewContainer := clear (if_viewContainer s)\<rparr>;
                s2 = s1\<lparr>if_elseViewRef := None\<rparr>
            in if js_truthy (if_thenTemplateRef s2) then
                 (case createEmbeddedView (if_thenTemplateRef s2) (if_context_ref s2) None
                         (if_viewContainer s2) of
                    Inl e \<Rightarrow> (Inl e, s2)
                  | Inr (v, vc) \<Rightarrow> (Inr (), s2\<lparr>if_viewContainer := vc, if_thenViewRef := Some v\<rparr>))
               else (Inr (), s2))
         else (Inr (), s))
      else
        (if if_elseViewRef s = None then
           (let s1 = s\<lparr>if_viewContainer := clear (if_viewContainer s)\<rparr>;
                s2 = s1\<lparr>if_thenViewRef := None\<rparr>
            in if js_truthy (if_elseTemplateRef s2) then
                 (case createEmbeddedView (if_elseTemplateRef s2) (if_context_ref s2) None
                         (if_viewContainer s2) of
                    Inl e \<Rightarrow> (Inl e, s2)
                  | Inr (v, vc) \<Rightarrow> (Inr (), s2\<lparr>if_viewContainer := vc, if_elseViewRef := Some v\<rparr>))
               else (Inr (), s2))
         else (Inr (), s)))"

text \<open>
  \<^verbatim>\<open>
  set ngIf(condition) {
      this._context.$implicit = this._context.ngIf = condition;
      this._updateView();
  }
  set ngIfThen(templateRef) {
      assertTemplate('ngIfThen', templateRef);
      this._thenTemplateRef = templateRef;
      this._thenViewRef = null; // clear previous view if any.
      this._updateView();
  }
  set ngIfElse(templateRef) {
      assertTemplate('ngIfElse', templateRef);
      this._elseTemplateRef = templateRef;
      this._elseViewRef = null; // clear previous view if any.
      this._updateView();
  }
  \<close>
\<close>

definition set_ngIf :: "jsval \<Rightarrow> NgIf \<Rightarrow> (error + unit) \<times> NgIf" where
  "set_ngIf condition s =
     updateView (s\<lparr>if_context := (if_context s)\<lparr>ctx_ngIf := condition, ctx_implicit := condition\<rparr>\<rparr>)"

definition set_ngIfThen ::
  "(jsval \<Rightarrow> error option) \<Rightarrow> jsval \<Rightarrow> NgIf \<Rightarrow> (error + unit) \<times> NgIf" where
  "set_ngIfThen stringify templateRef s =
     (case assertTemplate stringify ''ngIfThen'' templateRef of
        Inl e \<Rightarrow> (Inl e, s)
      | Inr u \<Rightarrow> updateView (s\<lparr>if_thenTemplateRef := templateRef, if_thenViewRef := None\<rparr>))"

definition set_ngIfElse ::
  "(jsval \<Rightarrow> error option) \<Rightarrow> jsval \<Rightarrow> NgIf \<Rightarrow> (error + unit) \<times> NgIf" where
  "set_ngIfElse stringify templateRef s =
     (case assertTemplate stringify ''ngIfElse'' templateRef of
        Inl e \<Rightarrow> (Inl e, s)
      | Inr u \<Rightarrow> updateView (s\<lparr>if_elseTemplateRef := templateRef, if_elseViewRef := None\<rparr>))"

subsection \<open>Vocabulary for the properties of NgIf\<close>


text \<open>\<^verbatim>\<open>v.name\<close> can be read and is truthy.\<close>

definition js_truthy_member :: "jsval \<Rightarrow> string \<Rightarrow> bool" where
  "js_truthy_member v name = (case js_get v name of Inl e \<Rightarrow> False | Inr m \<Rightarrow> js_truthy m)"

text \<open>
  A template reference: an object with a \<^verbatim>\<open>createEmbeddedView\<close> method. What the directive
  may hold as a template is \<^verbatim>\<open>null\<close> (any falsy value) or a template reference.
\<close>

definition is_templateRef :: "jsval \<Rightarrow> bool" where
  "is_templateRef t =
     (case js_get t ''createEmbeddedView'' of Inl e \<Rightarrow> False | Inr m \<Rightarrow> js_typeof m = ''function'')"

definition template_or_null :: "jsval \<Rightarrow> bool" where
  "template_or_null t = (\<not> js_truthy t \<or> is_templateRef t)"

text \<open>A template reference as the host makes them, and an empty container.\<close>

definition templateRef_example :: "nat \<Rightarrow> jsval" where
  "templateRef_example k = JObj [(''createEmbeddedView'', JFun k)]"

definition ViewContainerRef_empty :: ViewContainerRef where
  "ViewContainerRef_empty = \<lparr>views = [], next_view_id = 0, calls = []\<rparr>"

definition NgIf_example :: NgIf where
  "NgIf_example = NgIf_new ViewContainerRef_empty (templateRef_example 0) 0"

text \<open>The invariant of C9: at most one of the two cached views is set.\<close>

definition at_most_one_view :: "NgIf \<Rightarrow> bool" where
  "at_most_one_view s = (if_thenViewRef s = None \<or> if_elseViewRef s = None)"

text \<open>The state without the log of the container's calls, and the calls a step added.\<close>

definition forget_calls :: "NgIf \<Rightarrow> NgIf" where
  "forget_calls s = s\<lparr>if_viewContainer := (if_viewContainer s)\<lparr>calls := []\<rparr>\<rparr>"

definition issued :: "NgIf \<Rightarrow> NgIf \<Rightarrow> vc_call list" where
  "issued s s' = drop (length (calls (if_viewContainer s))) (calls (if_viewContainer s'))"

text \<open>
  A \<^verbatim>\<open>stringify\<close> for the examples: it throws a TypeError on an object whose \<^verbatim>\<open>toString\<close> is
  not a function, and returns a text otherwise.
\<close>

fun stringify_example :: "jsval \<Rightarrow> error option" where
  "stringify_example (JObj ps) =
     (case map_of ps ''toString'' of
        None \<Rightarrow> None
      | Some m \<Rightarrow> if js_typeof m = ''function'' then None else Some TypeError)"
| "stringify_example v = None"

subsection \<open>The stateless rule NgIf is compared with\<close>

text \<open>
  A sequence of setter invocations on one directive. A setter that throws leaves the
  directive as it is at the throw, and the next invocation finds it so.
\<close>

datatype setter_call = Set_ngIf jsval | Set_ngIfThen jsval | Set_ngIfElse jsval

fun invoke ::
  "(jsval \<Rightarrow> error option) \<Rightarrow> setter_call \<Rightarrow> NgIf \<Rightarrow> (error + unit) \<times> NgIf" where
  "invoke str (Set_ngIf v) s = set_ngIf v s"
| "invoke str (Set_ngIfThen v) s = set_ngIfThen str v s"
| "invoke str (Set_ngIfElse v) s = set_ngIfElse str v s"

fun run ::
  "(jsval \<Rightarrow> error option) \<Rightarrow> setter_call list \<Rightarrow> NgIf \<Rightarrow> (error + unit) list \<times> NgIf" where
  "run str [] s = ([], s)"
| "run str (c # cs) s =
     (case invoke str c s of (r, s') \<Rightarrow> (case run str cs s' of (rs, s'') \<Rightarrow> (r # rs, s'')))"

text \<open>Instantiating a template in the directive's container, bound to its context.\<close>

definition instantiate :: "jsval \<Rightarrow> NgIf \<Rightarrow> (error + unit) \<times> NgIf" where
  "instantiate t s =
     (case createEmbeddedView t (if_context_ref s) None (if_viewContainer s) of
        Inl e \<Rightarrow> (Inl e, s)
      | Inr (v, vc) \<Rightarrow> (Inr (), s\<lparr>if_viewContainer := vc\<rparr>))"

text \<open>
  The naive rule, in the words of the claim: on each update clear the container, then
  instantiate the then-template exactly when the condition is truthy, and the
  else-template exactly when the condition is falsy and an else-template is set. It reads
  and writes no cached view. Where there is no then-template to instantiate, the host's
  \<^verbatim>\<open>createEmbeddedView\<close> throws and no view is made.
\<close>

definition naive_updateView :: "NgIf \<Rightarrow> (error + unit) \<times> NgIf" where
  "naive_updateView s =
     (let s1 = s\<lparr>if_viewContainer := clear (if_viewContainer s)\<rparr>
      in if js_truthy (ctx_implicit (if_context s1)) then instantiate (if_thenTemplateRef s1) s1
         else if js_truthy (if_elseTemplateRef s1) then instantiate (if_elseTemplateRef s1) s1
         else (Inr (), s1))"

text \<open>The setters over the naive rule: they keep no cached view.\<close>

fun naive_invoke ::
  "(jsval \<Rightarrow> error option) \<Rightarrow> setter_call \<Rightarrow> NgIf \<Rightarrow> (error + unit) \<times> NgIf" where
  "naive_invoke str (Set_ngIf v) s =
     naive_updateView (s\<lparr>if_context := (if_context s)\<lparr>ctx_ngIf := v, ctx_implicit := v\<rparr>\<rparr>)"
| "naive_invoke str (Set_ngIfThen v) s =
     (case assertTemplate str ''ngIfThen'' v of
        Inl e \<Rightarrow> (Inl e, s)
      | Inr u \<Rightarrow> naive_updateView (s\<lparr>if_thenTemplateRef := v\<rparr>))"
| "naive_invoke str (Set_ngIfElse v) s =
     (case assertTemplate str ''ngIfElse'' v of
        Inl e \<Rightarrow> (Inl e, s)
      | Inr u \<Rightarrow> naive_updateView (s\<lparr>if_elseTemplateRef := v\<rparr>))"

fun naive_run ::
  "(jsval \<Rightarrow> error option) \<Rightarrow> setter_call list \<Rightarrow> NgIf \<Rightarrow> (error + unit) list \<times> NgIf" where
  "naive_run str [] s = ([], s)"
| "naive_run str (c # cs) s =
     (case naive_invoke str c s of (r, s') \<Rightarrow>
        (case naive_run str cs s' of (rs, s'') \<Rightarrow> (r # rs, s'')))"

text \<open>
  What is observed of a directive: the views in its container, each by its template and
  the context object it is bound to (not by its identity, which a re-created view does not
  keep), and the directive's context.
\<close>

definition shape :: "NgIf \<Rightarrow> (jsval \<times> ref) list" where
  "shape s = map (\<lambda>v. (view_template v, view_context v)) (views (if_viewContainer s))"

definition observe :: "NgIf \<Rightarrow> (jsval \<times> ref) list \<times> NgIfContext" where
  "observe s = (shape s, if_context s)"

text \<open>What a cached view says about the container, when there is one.\<close>

definition cache_ok :: "NgIf \<Rightarrow> bool" where
  "cache_ok s =
     ((if_thenViewRef s \<noteq> None \<longrightarrow>
         is_templateRef (if_thenTemplateRef s) \<and>
         shape s = [(if_thenTemplateRef s, if_context_ref s)]) \<and>
      (if_elseViewRef s \<noteq> None \<longrightarrow>
         is_templateRef (if_elseTemplateRef s) \<and>
         shape s = [(if_elseTemplateRef s, if_context_ref s)]))"

definition same_inputs :: "NgIf \<Rightarrow> NgIf \<Rightarrow> bool" where
  "same_inputs c n =
     (if_context c = if_context n \<and> if_context_ref c = if_context_ref n \<and>
      if_thenTemplateRef c = if_thenTemplateRef n \<and> if_elseTemplateRef c = if_elseTemplateRef n \<and>
      shape c = shape n)"

section \<open>NgForOf\<close>

subsection \<open>What the host gives NgForOf\<close>

text \<open>
  \<^verbatim>\<open>remove(index)\<close> takes the last view when \<^verbatim>\<open>index\<close> is \<^verbatim>\<open>undefined\<close> (and does nothing on an
  empty container), \<^verbatim>\<open>get(index)\<close> is \<^verbatim>\<open>null\<close> out of range, \<^verbatim>\<open>move(view, index)\<close> detaches the
  view and inserts it at \<^verbatim>\<open>index\<close>.
\<close>

definition remove :: "nat option \<Rightarrow> ViewContainerRef \<Rightarrow> error + ViewContainerRef" where
  "remove idx vc =
     (case idx of
        None \<Rightarrow> Inr (vc\<lparr>views := butlast (views vc), calls := calls vc @ [Remove idx]\<rparr>)
      | Some i \<Rightarrow>
          if i < length (views vc)
          then Inr (vc\<lparr>views := take i (views vc) @ drop (Suc i) (views vc),
                       calls := calls vc @ [Remove idx]\<rparr>)
          else Inl IndexOutOfRange)"

definition get :: "ViewContainerRef \<Rightarrow> nat \<Rightarrow> EmbeddedViewRef option" where
  "get vc i = (if i < length (views vc) then Some (views vc ! i) else None)"

definition move :: "EmbeddedViewRef \<Rightarrow> nat \<Rightarrow> ViewContainerRef \<Rightarrow> error + ViewContainerRef" where
  "move v i vc =
     (let rest = remove1 v (views vc)
      in if i \<le> length rest
         then Inr (vc\<lparr>views := take i rest @ v # drop i rest,
                      calls := calls vc @ [Move (view_id v) i]\<rparr>)
         else Inl IndexOutOfRange)"

text \<open>
  The differ registry (\<^verbatim>\<open>IterableDiffers\<close>) is a list of factories; \<^verbatim>\<open>find(value)\<close> is the
  first factory that supports the value and throws when there is none. A differ is an
  object with a state \<open>'d\<close> and a \<^verbatim>\<open>diff\<close> method, which returns the changes or \<^verbatim>\<open>null\<close>, or
  throws. A factory's \<^verbatim>\<open>create\<close> returns the differ or throws.

  \<^verbatim>\<open>changes.forEachOperation(fn)\<close> calls \<^verbatim>\<open>fn(item, adjustedPreviousIndex, currentIndex)\<close> for
  each operation in order; \<^verbatim>\<open>changes.forEachIdentityChange(fn)\<close> calls \<^verbatim>\<open>fn(record)\<close>. An index
  is a number or \<^verbatim>\<open>null\<close>.
\<close>

record IterableChangeRecord =
  item :: jsval
  previousIndex :: "nat option"
  currentIndex :: "nat option"

record IterableChanges =
  operations :: "(IterableChangeRecord \<times> nat option \<times> nat option) list"
  identityChanges :: "IterableChangeRecord list"

record 'd IterableDiffer =
  differ_state :: 'd
  differ_diff :: "'d \<Rightarrow> jsval \<Rightarrow> error + (IterableChanges option \<times> 'd)"

record 'd IterableDifferFactory =
  supports :: "jsval \<Rightarrow> bool"
  create :: "jsval \<Rightarrow> error + 'd IterableDiffer"

definition differs_find :: "'d IterableDifferFactory list \<Rightarrow> jsval \<Rightarrow> error + 'd IterableDifferFactory" where
  "differs_find factories v =
     (case List.find (\<lambda>f. supports f v) factories of
        None \<Rightarrow> Inl (FindDifferError v)
      | Some f \<Rightarrow> Inr f)"

text \<open>
  The globals the directive reads: \<open>ngDevMode\<close> stands for
  \<^verbatim>\<open>typeof ngDevMode === 'undefined' || ngDevMode\<close>, \<open>console_warn\<close> for \<^verbatim>\<open>console && console.warn\<close>.
  With them, what the methods of a value do, which the model does not see:
  \<open>to_text v\<close> is the conversion of \<open>v\<close> in a template literal (\<^verbatim>\<open>`${v}`\<close>), which runs the
  value's \<^verbatim>\<open>toString\<close> and \<^verbatim>\<open>valueOf\<close>: \<open>None\<close> where it gives a string, \<open>Some e\<close> where it throws
  \<open>e\<close>; \<open>toJSON_error f v\<close> is the same for the serialisation of \<open>v\<close> through its \<^verbatim>\<open>toJSON\<close>
  method \<open>f\<close>.
\<close>

record env =
  ngDevMode :: bool
  console_warn :: bool
  to_text :: "jsval \<Rightarrow> error option"
  toJSON_error :: "nat \<Rightarrow> jsval \<Rightarrow> error option"

text \<open>
  \<^verbatim>\<open>JSON.stringify(v)\<close>: \<open>None\<close> where it returns, \<open>Some e\<close> where it throws. It throws a
  TypeError on a BigInt; an array is serialised element by element and an object member by
  member, in order, unless the object has a \<^verbatim>\<open>toJSON\<close> method, which is then asked. The
  members of an object are the values \<open>js_get\<close> finds: of two entries under one name only the
  first counts. (A cyclic object, on which it throws too, is not a value of \<open>jsval\<close>.) The
  text it returns is not modelled: a warning is recorded by the value it is about.
\<close>

fun first_error :: "error option list \<Rightarrow> error option" where
  "first_error [] = None"
| "first_error (None # rest) = first_error rest"
| "first_error (Some e # rest) = Some e"

fun JSON_stringify_error :: "(nat \<Rightarrow> jsval \<Rightarrow> error option) \<Rightarrow> jsval \<Rightarrow> error option" where
  "JSON_stringify_error tj (JBigInt n) = Some (JsonTypeError (JBigInt n))"
| "JSON_stringify_error tj (JArr xs) = first_error (map (JSON_stringify_error tj) xs)"
| "JSON_stringify_error tj (JObj ps) =
     (case map_of ps ''toJSON'' of
        Some (JFun f) \<Rightarrow> tj f (JObj ps)
      | other \<Rightarrow>
          first_error (map (\<lambda>(k, v). if map_of ps k = Some v then JSON_stringify_error tj v else None) ps))"
| "JSON_stringify_error tj v = None"

subsection \<open>The directive\<close>

text \<open>
  The directive's fields, and the two parts of the world it writes to: \<open>for_heap\<close>, the
  context objects by address (\<^verbatim>\<open>new NgForOfContext(...)\<close> takes the next address), and
  \<open>for_console\<close>, the values \<^verbatim>\<open>console.warn\<close> was called about.
  \<^verbatim>\<open>
  constructor(_viewContainer, _template, _differs) {
      this._viewContainer = _viewContainer;
      this._template = _template;
      this._differs = _differs;
      this._ngForOf = null;
      this._ngForOfDirty = true;
      this._differ = null;
  }
  \<close>
  \<^verbatim>\<open>_trackByFn\<close> is not assigned by the constructor: it reads \<^verbatim>\<open>undefined\<close>.
\<close>

record 'd NgForOf =
  for_viewContainer :: ViewContainerRef
  for_template :: jsval
  for_differs :: "'d IterableDifferFactory list"
  for_ngForOf :: jsval
  for_ngForOfDirty :: bool
  for_differ :: "'d IterableDiffer option"
  for_trackByFn :: jsval
  for_heap :: "NgForOfContext list"
  for_console :: "jsval list"

definition NgForOf_new ::
  "ViewContainerRef \<Rightarrow> jsval \<Rightarrow> 'd IterableDifferFactory list \<Rightarrow> NgForOfContext list \<Rightarrow> 'd NgForOf" where
  "NgForOf_new viewContainer template differs heap =
     \<lparr>for_viewContainer = viewContainer, for_template = template, for_differs = differs,
      for_ngForOf = JNull, for_ngForOfDirty = True, for_differ = None,
      for_trackByFn = JUndefined, for_heap = heap, for_console = []\<rparr>"

text \<open>
  \<^verbatim>\<open>
  set ngForOf(ngForOf) {
      this._ngForOf = ngForOf;
      this._ngForOfDirty = true;
  }
  set ngForTrackBy(fn) {
      if ((typeof ngDevMode === 'undefined' || ngDevMode) && fn != null && typeof fn !== 'function') {
          if (console && console.warn) {
              console.warn(`trackBy must be a function, but received ${JSON.stringify(fn)}. ` + ...);
          }
      }
      this._trackByFn = fn;
  }
  get ngForTrackBy() {
      return this._trackByFn;
  }
  set ngForTemplate(value) {
      if (value) {
          this._template = value;
      }
  }
  \<close>
\<close>

definition set_ngForOf :: "jsval \<Rightarrow> 'd NgForOf \<Rightarrow> 'd NgForOf" where
  "set_ngForOf v s = s\<lparr>for_ngForOf := v, for_ngForOfDirty := True\<rparr>"

definition set_ngForTrackBy :: "env \<Rightarrow> jsval \<Rightarrow> 'd NgForOf \<Rightarrow> (error + unit) \<times> 'd NgForOf" where
  "set_ngForTrackBy e fn s =
     (if ngDevMode e \<and> \<not> js_nullish fn \<and> js_typeof fn \<noteq> ''function'' then
        (if console_warn e then
           (case JSON_stringify_error (toJSON_error e) fn of
              Some err \<Rightarrow> (Inl err, s)
            | None \<Rightarrow> (Inr (), s\<lparr>for_console := for_console s @ [fn], for_trackByFn := fn\<rparr>))
         else (Inr (), s\<lparr>for_trackByFn := fn\<rparr>))
      else (Inr (), s\<lparr>for_trackByFn := fn\<rparr>))"

definition ngForTrackBy_get :: "'d NgForOf \<Rightarrow> jsval" where
  "ngForTrackBy_get s = for_trackByFn s"

definition set_ngForTemplate :: "jsval \<Rightarrow> 'd NgForOf \<Rightarrow> 'd NgForOf" where
  "set_ngForTemplate v s = (if js_truthy v then s\<lparr>for_template := v\<rparr> else s)"

text \<open>
  \<^verbatim>\<open>
  function applyViewChange(view, record) {
      view.context.$implicit = record.item;
  }
  \<close>
  A write through a reference: the context object at the view's address changes.
\<close>

definition heap_update ::
  "ref \<Rightarrow> (NgForOfContext \<Rightarrow> NgForOfContext) \<Rightarrow> NgForOfContext list \<Rightarrow> NgForOfContext list" where
  "heap_update a f h = (if a < length h then h[a := f (h ! a)] else h)"

definition applyViewChange :: "EmbeddedViewRef \<Rightarrow> IterableChangeRecord \<Rightarrow> 'd NgForOf \<Rightarrow> 'd NgForOf" where
  "applyViewChange view record s =
     s\<lparr>for_heap := heap_update (view_context view) (\<lambda>c. c\<lparr>implicit := item record\<rparr>) (for_heap s)\<rparr>"

text \<open>
  \<^verbatim>\<open>
  changes.forEachOperation((item, adjustedPreviousIndex, currentIndex) => {
      if (item.previousIndex == null) {
          viewContainer.createEmbeddedView(this._template,
              new NgForOfContext(item.item, this._ngForOf, -1, -1),
              currentIndex === null ? undefined : currentIndex);
      }
      else if (currentIndex == null) {
          viewContainer.remove(adjustedPreviousIndex === null ? undefined : adjustedPreviousIndex);
      }
      else if (adjustedPreviousIndex !== null) {
          const view = viewContainer.get(adjustedPreviousIndex);
          viewContainer.move(view, currentIndex);
          applyViewChange(view, item);
      }
  });
  \<close>
  \<^verbatim>\<open>move(null, ...)\<close>, when \<^verbatim>\<open>get\<close> found no view, is a TypeError.
\<close>

definition applyOperation ::
  "IterableChangeRecord \<times> nat option \<times> nat option \<Rightarrow> 'd NgForOf \<Rightarrow> (error + unit) \<times> 'd NgForOf" where
  "applyOperation operation s =
     (case operation of (record, adjustedPreviousIndex, currentIdx) \<Rightarrow>
        if previousIndex record = None then
          (let a = length (for_heap s);
               s1 = s\<lparr>for_heap := for_heap s @ [NgForOfContext_new (item record) (for_ngForOf s) (- 1) (- 1)]\<rparr>
           in case createEmbeddedView (for_template s1) a currentIdx (for_viewContainer s1) of
                Inl e \<Rightarrow> (Inl e, s1)
              | Inr (v, vc) \<Rightarrow> (Inr (), s1\<lparr>for_viewContainer := vc\<rparr>))
        else
          (case currentIdx of
             None \<Rightarrow>
               (case remove adjustedPreviousIndex (for_viewContainer s) of
                  Inl e \<Rightarrow> (Inl e, s)
                | Inr vc \<Rightarrow> (Inr (), s\<lparr>for_viewContainer := vc\<rparr>))
           | Some ci \<Rightarrow>
               (case adjustedPreviousIndex of
                  None \<Rightarrow> (Inr (), s)
                | Some p \<Rightarrow>
                    (case get (for_viewContainer s) p of
                       None \<Rightarrow> (Inl TypeError, s)
                     | Some view \<Rightarrow>
                         (case move view ci (for_viewContainer s) of
                            Inl e \<Rightarrow> (Inl e, s)
                          | Inr vc \<Rightarrow>
                              (Inr (), applyViewChange view record (s\<lparr>for_viewContainer := vc\<rparr>)))))))"

fun forEachOperation ::
  "(IterableChangeRecord \<times> nat option \<times> nat option) list \<Rightarrow> 'd NgForOf \<Rightarrow> (error + unit) \<times> 'd NgForOf" where
  "forEachOperation [] s = (Inr (), s)"
| "forEachOperation (operation # rest) s =
     (case applyOperation operation s of
        (Inl e, s') \<Rightarrow> (Inl e, s')
      | (Inr u, s') \<Rightarrow> forEachOperation rest s')"

text \<open>
  \<^verbatim>\<open>
  for (let i = 0, ilen = viewContainer.length; i < ilen; i++) {
      const viewRef = viewContainer.get(i);
      const context = viewRef.context;
      context.index = i;
      context.count = ilen;
      context.ngForOf = this._ngForOf;
  }
  \<close>
  The loop changes no view, so \<^verbatim>\<open>get(i)\<close> is the view at \<open>i\<close> for every \<open>i\<close> below \<^verbatim>\<open>ilen\<close>.
\<close>

definition renumber_step :: "EmbeddedViewRef list \<Rightarrow> nat \<Rightarrow> jsval \<Rightarrow> nat \<Rightarrow> NgForOfContext list \<Rightarrow> NgForOfContext list" where
  "renumber_step vs ilen f i h =
     heap_update (view_context (vs ! i)) (\<lambda>c. c\<lparr>index := int i, count := int ilen, ngForOf := f\<rparr>) h"

definition renumber :: "'d NgForOf \<Rightarrow> 'd NgForOf" where
  "renumber s =
     (let vs = views (for_viewContainer s); ilen = length vs
      in s\<lparr>for_heap := fold (renumber_step vs ilen (for_ngForOf s)) [0..<ilen] (for_heap s)\<rparr>)"

text \<open>
  \<^verbatim>\<open>
  changes.forEachIdentityChange((record) => {
      const viewRef = viewContainer.get(record.currentIndex);
      applyViewChange(viewRef, record);
  });
  \<close>
  \<^verbatim>\<open>get\<close> of \<^verbatim>\<open>null\<close> or of an index out of range is \<^verbatim>\<open>null\<close>, and \<^verbatim>\<open>applyViewChange(null, ...)\<close>
  is a TypeError.
\<close>

fun forEachIdentityChange :: "IterableChangeRecord list \<Rightarrow> 'd NgForOf \<Rightarrow> (error + unit) \<times> 'd NgForOf" where
  "forEachIdentityChange [] s = (Inr (), s)"
| "forEachIdentityChange (record # rest) s =
     (case currentIndex record of
        None \<Rightarrow> (Inl TypeError, s)
      | Some i \<Rightarrow>
          (case get (for_viewContainer s) i of
             None \<Rightarrow> (Inl TypeError, s)
           | Some viewRef \<Rightarrow> forEachIdentityChange rest (applyViewChange viewRef record s)))"

definition applyChanges :: "IterableChanges \<Rightarrow> 'd NgForOf \<Rightarrow> (error + unit) \<times> 'd NgForOf" where
  "applyChanges changes s =
     (case forEachOperation (operations changes) s of
        (Inl e, s') \<Rightarrow> (Inl e, s')
      | (Inr u, s') \<Rightarrow> forEachIdentityChange (identityChanges changes) (renumber s'))"

text \<open>
  \<^verbatim>\<open>
  ngDoCheck() {
      if (this._ngForOfDirty) {
          this._ngForOfDirty = false;
          const value = this._ngForOf;
          if (!this._differ && value) {
              if (typeof ngDevMode === 'undefined' || ngDevMode) {
                  try {
                      this._differ = this._differs.find(value).create(this.ngForTrackBy);
                  }
                  catch {
                      throw new Error(`Cannot find a differ supporting object '${value}' of type
                        '${getTypeName(value)}'. NgFor only supports binding to Iterables such as Arrays.`);
                  }
              }
              else {
                  this._differ = this._differs.find(value).create(this.ngForTrackBy);
              }
          }
      }
      if (this._differ) {
          const changes = this._differ.diff(this._ngForOf);
          if (changes)
              this._applyChanges(changes);
      }
  }
  \<close>
  \<^verbatim>\<open>
  function getTypeName(type) {
      return type['name'] || typeof type;
  }
  \<close>
  The two statements of the body are \<open>ngDoCheck_differ\<close> and \<open>ngDoCheck_diff\<close>. In dev mode
  the \<^verbatim>\<open>catch\<close> builds the message of its Error from \<^verbatim>\<open>`${value}`\<close> and
  \<^verbatim>\<open>`${getTypeName(value)}`\<close>, in this order, before it throws: where one of the conversions
  throws, that is the error (\<open>ngFor_error\<close>). The Error itself is recorded by the value it is
  about.
\<close>

definition getTypeName :: "jsval \<Rightarrow> error + jsval" where
  "getTypeName type =
     (case js_get type ''name'' of
        Inl err \<Rightarrow> Inl err
      | Inr m \<Rightarrow> Inr (if js_truthy m then m else JStr (js_typeof type)))"

definition ngFor_error :: "env \<Rightarrow> jsval \<Rightarrow> error" where
  "ngFor_error e v =
     (case to_text e v of
        Some err \<Rightarrow> err
      | None \<Rightarrow>
          (case getTypeName v of
             Inl err \<Rightarrow> err
           | Inr n \<Rightarrow>
               (case to_text e n of
                  Some err \<Rightarrow> err
                | None \<Rightarrow> NgForDifferError v)))"

text \<open>\<^verbatim>\<open>this._differs.find(value).create(this.ngForTrackBy)\<close>\<close>

definition find_create :: "'d IterableDifferFactory list \<Rightarrow> jsval \<Rightarrow> jsval \<Rightarrow> error + 'd IterableDiffer" where
  "find_create factories v trackBy =
     (case differs_find factories v of
        Inl err \<Rightarrow> Inl err
      | Inr factory \<Rightarrow> create factory trackBy)"

definition ngDoCheck_differ :: "env \<Rightarrow> 'd NgForOf \<Rightarrow> (error + unit) \<times> 'd NgForOf" where
  "ngDoCheck_differ e s =
     (if for_ngForOfDirty s then
        (let s1 = s\<lparr>for_ngForOfDirty := False\<rparr>; v = for_ngForOf s1
         in if for_differ s1 = None \<and> js_truthy v then
              (case find_create (for_differs s1) v (ngForTrackBy_get s1) of
                 Inl err \<Rightarrow> (Inl (if ngDevMode e then ngFor_error e v else err), s1)
               | Inr d \<Rightarrow> (Inr (), s1\<lparr>for_differ := Some d\<rparr>))
            else (Inr (), s1))
      else (Inr (), s))"

definition ngDoCheck_diff :: "'d NgForOf \<Rightarrow> (error + unit) \<times> 'd NgForOf" where
  "ngDoCheck_diff s =
     (case for_differ s of
        None \<Rightarrow> (Inr (), s)
      | Some d \<Rightarrow>
          (case differ_diff d (differ_state d) (for_ngForOf s) of
             Inl err \<Rightarrow> (Inl err, s)
           | Inr (changes, st) \<Rightarrow>
               (let s1 = s\<lparr>for_differ := Some (d\<lparr>differ_state := st\<rparr>)\<rparr>
                in case changes of
                     None \<Rightarrow> (Inr (), s1)
                   | Some ch \<Rightarrow> applyChanges ch s1)))"

definition ngDoCheck :: "env \<Rightarrow> 'd NgForOf \<Rightarrow> (error + unit) \<times> 'd NgForOf" where
  "ngDoCheck e s =
     (case ngDoCheck_differ e s of
        (Inl err, s') \<Rightarrow> (Inl err, s')
      | (Inr u, s') \<Rightarrow> ngDoCheck_diff s')"

subsection \<open>Vocabulary for the properties of NgForOf\<close>

text \<open>
  No two views of the container share a context object, and every view's context is an
  allocated object. The constructor's container is empty, and every view the directive
  adds comes with a context object of its own.
\<close>

definition contexts_separate :: "'d NgForOf \<Rightarrow> bool" where
  "contexts_separate s =
     (distinct (map view_context (views (for_viewContainer s))) \<and>
      list_all (\<lambda>v. view_context v < length (for_heap s)) (views (for_viewContainer s)))"

text \<open>The context object of the view at position \<open>i\<close>.\<close>

definition context_at :: "'d NgForOf \<Rightarrow> nat \<Rightarrow> NgForOfContext" where
  "context_at s i = for_heap s ! view_context (views (for_viewContainer s) ! i)"

definition contexts_numbered :: "'d NgForOf \<Rightarrow> bool" where
  "contexts_numbered s =
     (\<forall>i < length (views (for_viewContainer s)).
        index (context_at s i) = int i \<and>
        count (context_at s i) = int (length (views (for_viewContainer s))) \<and>
        ngForOf (context_at s i) = for_ngForOf s)"

text \<open>
  The state in which \<^verbatim>\<open>ngDoCheck\<close> cannot make its differ: there is none yet, the value is
  truthy, and no factory of the registry supports the value or the factory found throws in
  \<^verbatim>\<open>create\<close>.
\<close>

definition no_differ_for :: "'d NgForOf \<Rightarrow> bool" where
  "no_differ_for s =
     (for_differ s = None \<and> js_truthy (for_ngForOf s) \<and>
      (case List.find (\<lambda>f. supports f (for_ngForOf s)) (for_differs s) of
         None \<Rightarrow> True
       | Some f \<Rightarrow> isl (create f (for_trackByFn s))))"

text \<open>
  Examples: a dev-mode environment in which a value converts to text unless its
  \<^verbatim>\<open>toString\<close> and \<^verbatim>\<open>valueOf\<close> are not functions, a differ for arrays that reports every
  element as new, once, and a registry whose factory throws.
\<close>

fun to_text_example :: "jsval \<Rightarrow> error option" where
  "to_text_example (JObj ps) =
     (case map_of ps ''toString'' of
        None \<Rightarrow> None
      | Some m \<Rightarrow>
          if js_typeof m = ''function'' then None
          else (case map_of ps ''valueOf'' of
                  None \<Rightarrow> Some TypeError
                | Some w \<Rightarrow> if js_typeof w = ''function'' then None else Some TypeError))"
| "to_text_example v = None"

definition dev_env :: env where
  "dev_env = \<lparr>ngDevMode = True, console_warn = True, to_text = to_text_example,
              toJSON_error = (\<lambda>f v. None)\<rparr>"

fun is_array :: "jsval \<Rightarrow> bool" where
  "is_array (JArr xs) = True"
| "is_array v = False"

fun array_items :: "jsval \<Rightarrow> jsval list" where
  "array_items (JArr xs) = xs"
| "array_items v = []"

definition insert_all :: "jsval list \<Rightarrow> IterableChanges" where
  "insert_all xs =
     \<lparr>operations = map (\<lambda>(i, x). (\<lparr>item = x, previousIndex = None, currentIndex = Some i\<rparr>, None, Some i))
                       (enumerate 0 xs),
      identityChanges = []\<rparr>"

definition once_differ :: "bool IterableDiffer" where
  "once_differ =
     \<lparr>differ_state = False,
      differ_diff = (\<lambda>done v. if is_array v then Inr (if done then None else Some (insert_all (array_items v)), True)
                              else Inl (DiffError v))\<rparr>"

definition array_differs :: "bool IterableDifferFactory list" where
  "array_differs = [\<lparr>supports = is_array, create = (\<lambda>trackBy. Inr once_differ)\<rparr>]"

definition broken_differs :: "bool IterableDifferFactory list" where
  "broken_differs = [\<lparr>supports = is_array, create = (\<lambda>trackBy. Inl (Thrown (JStr ''no differ'')))\<rparr>]"

definition NgForOf_example :: "bool NgForOf" where
  "NgForOf_example = NgForOf_new ViewContainerRef_empty (templateRef_example 0) array_differs []"

section \<open>The sass-loader options schema\<close>

text \<open>The \<^verbatim>\<open>type\<close> keyword, on the values an options object can hold.\<close>

fun type_ok :: "string \<Rightarrow> jsval \<Rightarrow> bool" where
  "type_ok t (JStr s) = (t = ''string'')"
| "type_ok t (JBool b) = (t = ''boolean'')"
| "type_ok t (JObj ps) = (t = ''object'')"
| "type_ok t (JArr xs) = (t = ''array'')"
| "type_ok t JNull = (t = ''null'')"
| "type_ok t (JNum n) = (t = ''number'' \<or> t = ''integer'')"
| "type_ok t v = False"

text \<open>The names a schema object declares under \<^verbatim>\<open>properties\<close>.\<close>

fun declared_properties :: "(string \<times> jsval) list \<Rightarrow> string list" where
  "declared_properties kws = (case map_of kws ''properties'' of Some (JObj subs) \<Rightarrow> map fst subs | _ \<Rightarrow> [])"

text \<open>A member of an object or an array is smaller than it: the validator terminates.\<close>

lemma size_field:
  "(k, v) \<in> set ps \<Longrightarrow> size (v::jsval) < Suc (size_list (size_prod (\<lambda>x. 0) size) ps)"
  by (induction ps) auto

lemma size_element: "(x::jsval) \<in> set xs \<Longrightarrow> size x < Suc (size_list size xs)"
  by (induction xs) auto

lemma size_field_field:
  "(k, JObj subs) \<in> set kws \<Longrightarrow> (n, sub) \<in> set subs \<Longrightarrow>
   size sub < Suc (size_list (size_prod (\<lambda>x. 0) size) kws)"
  using size_field [of k "JObj subs" kws] size_field [of n sub subs] by simp

lemma size_field_element:
  "(k, JArr subs) \<in> set kws \<Longrightarrow> sub \<in> set subs \<Longrightarrow>
   size sub < Suc (size_list (size_prod (\<lambda>x. 0) size) kws)"
  using size_field [of k "JArr subs" kws] size_element [of sub subs] by simp

text \<open>
  Modelled from the spec: the validator that reads \<^verbatim>\<open>options.json\<close> is not in the sources;
  \<open>valid schema d\<close> is JSON Schema validation of the value \<open>d\<close> for the keywords this schema
  uses. \<^verbatim>\<open>type\<close> tests the kind of the value; \<^verbatim>\<open>properties\<close> validates each declared member
  that an object has; \<^verbatim>\<open>additionalProperties\<close> validates every member of an object that
  \<^verbatim>\<open>properties\<close> does not declare (the schema \<^verbatim>\<open>false\<close> accepts nothing, \<^verbatim>\<open>true\<close> everything);
  \<^verbatim>\<open>anyOf\<close> asks for one alternative to accept; \<^verbatim>\<open>instanceof: "Function"\<close> asks for a
  function. \<^verbatim>\<open>title\<close>, \<^verbatim>\<open>description\<close> and \<^verbatim>\<open>link\<close> are annotations.
\<close>

function (sequential) valid :: "jsval \<Rightarrow> jsval \<Rightarrow> bool" where
  "valid (JBool b) d = b"
| "valid (JObj kws) d =
     ((case map_of kws ''type'' of
         None \<Rightarrow> True
       | Some (JStr t) \<Rightarrow> type_ok t d
       | Some other \<Rightarrow> False) \<and>
      (case map_of kws ''properties'' of
         None \<Rightarrow> True
       | Some (JObj subs) \<Rightarrow>
           (case d of
              JObj members \<Rightarrow>
                list_all (\<lambda>(name, sub). case map_of members name of None \<Rightarrow> True | Some v \<Rightarrow> valid sub v) subs
            | other \<Rightarrow> True)
       | Some other \<Rightarrow> False) \<and>
      (case map_of kws ''additionalProperties'' of
         None \<Rightarrow> True
       | Some a \<Rightarrow>
           (case d of
              JObj members \<Rightarrow>
                list_all (\<lambda>(k, v). k \<in> set (declared_properties kws) \<or> valid a v) members
            | other \<Rightarrow> True)) \<and>
      (case map_of kws ''anyOf'' of
         None \<Rightarrow> True
       | Some (JArr subs) \<Rightarrow> list_ex (\<lambda>sub. valid sub d) subs
       | Some other \<Rightarrow> False) \<and>
      (case map_of kws ''instanceof'' of
         None \<Rightarrow> True
       | Some c \<Rightarrow> c = JStr ''Function'' \<and> js_typeof d = ''function''))"
| "valid s d = False"
  by pat_completeness auto
termination
  by (relation "measure (\<lambda>(s, d). size s)")
    (auto dest!: map_of_SomeD intro: size_field size_field_field size_field_element)

declare valid.simps [simp del]

text \<open>
  \<^verbatim>\<open>options.json\<close>, member by member in the order of the file: the declared properties, then
  the schema itself.
\<close>

definition options_properties :: "(string \<times> jsval) list" where
  "options_properties =
     [(''implementation'', JObj
         [(''description'', JStr ''The implementation of the sass to be used.''),
          (''link'', JStr ''https://github.com/webpack-contrib/sass-loader#implementation''),
          (''anyOf'', JArr [JObj [(''type'', JStr ''string'')], JObj [(''type'', JStr ''object'')]])]),
      (''sassOptions'', JObj
         [(''description'', JStr ''Options for `node-sass` or `sass` (`Dart Sass`) implementation.''),
          (''link'', JStr ''https://github.com/webpack-contrib/sass-loader#sassoptions''),
          (''anyOf'', JArr [JObj [(''type'', JStr ''object''), (''additionalProperties'', JBool True)],
                            JObj [(''instanceof'', JStr ''Function'')]])]),
      (''additionalData'', JObj
         [(''description'', JStr ''Prepends/Appends `Sass`/`SCSS` code before the actual entry file.''),
          (''link'', JStr ''https://github.com/webpack-contrib/sass-loader#additionaldata''),
          (''anyOf'', JArr [JObj [(''type'', JStr ''string'')], JObj [(''instanceof'', JStr ''Function'')]])]),
      (''sourceMap'', JObj
         [(''description'', JStr ''Enables/Disables generation of source maps.''),
          (''link'', JStr ''https://github.com/webpack-contrib/sass-loader#sourcemap''),
          (''type'', JStr ''boolean'')]),
      (''webpackImporter'', JObj
         [(''description'', JStr ''Enables/Disables default `webpack` importer.''),
          (''link'', JStr ''https://github.com/webpack-contrib/sass-loader#webpackimporter''),
          (''type'', JStr ''boolean'')]),
      (''warnRuleAsWarning'', JObj
         [(''description'', JStr (''Treats the '' @ [CHR 0x27] @ ''@warn'' @ [CHR 0x27] @ '' rule as a webpack warning.'')),
          (''link'', JStr ''https://github.com/webpack-contrib/sass-loader#warnruleaswarning''),
          (''type'', JStr ''boolean'')])]"

definition options_schema :: jsval where
  "options_schema =
     JObj [(''title'', JStr ''Sass Loader options''),
           (''type'', JStr ''object''),
           (''properties'', JObj options_properties),
           (''additionalProperties'', JBool False)]"

text \<open>The six option names of C7.\<close>

definition option_names :: "string list" where
  "option_names = [''implementation'', ''sassOptions'', ''additionalData'', ''sourceMap'',
     ''webpackImporter'', ''warnRuleAsWarning'']"

section \<open>Properties of NgForOfContext\<close>

lemma smod_two_eq_zero_iff: "(k::int) smod 2 = 0 \<longleftrightarrow> k mod 2 = 0"
  by (simp add: signed_modulo_int_def sgn_if) presburger

lemma bit_length_le: "n < 2 ^ m \<Longrightarrow> bit_length n \<le> m"
proof (induction m arbitrary: n)
  case 0
  then show ?case by (simp add: bit_length.simps)
next
  case (Suc m)
  show ?case
  proof (cases "n = 0")
    case True
    then show ?thesis by (simp add: bit_length.simps)
  next
    case False
    from Suc.prems have "n div 2 < 2 ^ m" by simp
    from Suc.IH [OF this] False show ?thesis
      by (subst bit_length.simps) simp
  qed
qed

lemma double_round_exact:
  assumes "\<bar>k\<bar> < 2 ^ 53"
  shows "double_round k = k"
proof -
  from assms have "nat \<bar>k\<bar> < 2 ^ 53"
    by (simp add: nat_less_iff)
  then have "bit_length (nat \<bar>k\<bar>) \<le> 53"
    by (rule bit_length_le)
  then show ?thesis
    by (simp add: double_round_def Let_def)
qed

lemma bit_length_eq: "2 ^ m \<le> n \<Longrightarrow> n < 2 ^ Suc m \<Longrightarrow> bit_length n = Suc m"
proof (induction m arbitrary: n)
  case 0
  then have "n = Suc 0" by simp
  then show ?case by (simp add: bit_length.simps [of "Suc 0"] bit_length.simps [of 0])
next
  case (Suc m)
  from Suc.prems have "2 ^ m \<le> n div 2" "n div 2 < 2 ^ Suc m" "n \<noteq> 0"
    by auto
  with Suc.IH [of "n div 2"] show ?case
    by (subst bit_length.simps) simp
qed

lemma double_round_edge: "double_round (- (2 ^ 53)) = - (2 ^ 53)"
proof -
  have "bit_length (nat \<bar>- (2 ^ 53) :: int\<bar>) = Suc 53"
    by (rule bit_length_eq) simp_all
  then show ?thesis
    by (simp add: double_round_def Let_def)
qed

lemma double_round_safe:
  assumes "safe_integer k"
  shows "double_round (k - 1) = k - 1"
proof (cases "k - 1 = - (2 ^ 53)")
  case True
  then show ?thesis by (simp only: double_round_edge)
next
  case False
  with assms have "\<bar>k - 1\<bar> < 2 ^ 53"
    by (simp add: safe_integer_def)
  then show ?thesis by (rule double_round_exact)
qed

text \<open>
  C8, as stated: \<open>last\<close> is true iff \<open>index = count - 1\<close>, for every NgForOfContext. With
  \<open>index = 2^53\<close> and \<open>count = 2^53 + 2\<close> the difference \<open>2^53 + 1\<close> is not a double:
  \<^verbatim>\<open>this.count - 1\<close> is \<open>2^53\<close>, and \<open>last\<close> is true although \<open>index\<close> is not \<open>count - 1\<close>.
\<close>

theorem NgForOfContext_last_counterexample:
  "last_get (NgForOfContext_new JNull (JArr []) (2 ^ 53) (2 ^ 53 + 2)) \<and>
   index (NgForOfContext_new JNull (JArr []) (2 ^ 53) (2 ^ 53 + 2)) \<noteq>
     count (NgForOfContext_new JNull (JArr []) (2 ^ 53) (2 ^ 53 + 2)) - 1"
proof -
  have "bit_length (nat \<bar>2 ^ 53 + 2 - 1 :: int\<bar>) = Suc 53"
    by (rule bit_length_eq) simp_all
  then have "double_round (2 ^ 53 + 2 - 1) = 2 ^ 53"
    by (simp add: double_round_def Let_def)
  then show ?thesis
    by (simp add: last_get_def NgForOfContext_new_def)
qed

text \<open>
  C8, amended. For every NgForOfContext whose \<open>index\<close> and \<open>count\<close> are integers: \<open>first\<close> is
  true iff \<open>index = 0\<close>; when \<open>count\<close> is a safe integer (of magnitude at most \<open>2^53 - 1\<close>),
  \<open>last\<close> is true iff \<open>index = count - 1\<close>; \<open>even\<close> is true iff \<open>index mod 2 = 0\<close>; \<open>odd\<close> is
  the negation of \<open>even\<close>, so for a non-negative index exactly one of \<open>even\<close> and \<open>odd\<close>
  holds.
\<close>

theorem NgForOfContext_getters:
  "(first_get c \<longleftrightarrow> index c = 0) \<and>
   (safe_integer (count c) \<longrightarrow> (last_get c \<longleftrightarrow> index c = count c - 1)) \<and>
   (even_get c \<longleftrightarrow> index c mod 2 = 0) \<and>
   (odd_get c \<longleftrightarrow> \<not> even_get c) \<and>
   (0 \<le> index c \<longrightarrow> (even_get c \<or> odd_get c) \<and> \<not> (even_get c \<and> odd_get c))"
proof -
  have e: "even_get c \<longleftrightarrow> index c mod 2 = 0"
    by (simp add: even_get_def smod_two_eq_zero_iff)
  have l: "last_get c \<longleftrightarrow> index c = count c - 1" if "safe_integer (count c)"
    using double_round_safe [OF that] by (simp add: last_get_def)
  show ?thesis
    unfolding first_get_def odd_get_def using e l by blast
qed

theorem NgForOfContext_getters_witness:
  "(0::int) \<le> index (NgForOfContext_new JNull (JArr []) 3 4) \<and>
   safe_integer (count (NgForOfContext_new JNull (JArr []) 3 4)) \<and>
   \<not> first_get (NgForOfContext_new JNull (JArr []) 3 4) \<and>
   last_get (NgForOfContext_new JNull (JArr []) 3 4) \<and>
   \<not> even_get (NgForOfContext_new JNull (JArr []) 3 4) \<and>
   odd_get (NgForOfContext_new JNull (JArr []) 3 4)"
proof -
  have s: "safe_integer (count (NgForOfContext_new JNull (JArr []) 3 4))"
    by (simp add: safe_integer_def NgForOfContext_new_def)
  have i: "index (NgForOfContext_new JNull (JArr []) 3 4) = 3"
    "count (NgForOfContext_new JNull (JArr []) 3 4) = 4"
    by (simp_all add: NgForOfContext_new_def)
  from s i NgForOfContext_getters [of "NgForOfContext_new JNull (JArr []) 3 4"]
  show ?thesis by simp
qed

section \<open>Properties of NgIf\<close>

lemma js_get_error: "js_get v name = Inl e \<Longrightarrow> e = TypeError"
  by (cases v) (auto split: option.splits)

lemma is_templateRef_truthy: "is_templateRef t \<Longrightarrow> js_truthy t"
  by (cases t) (simp_all add: is_templateRef_def)

lemma is_templateRef_member: "is_templateRef t \<Longrightarrow> js_truthy_member t ''createEmbeddedView''"
proof -
  assume t: "is_templateRef t"
  then obtain m where m: "js_get t ''createEmbeddedView'' = Inr m" "js_typeof m = ''function''"
    by (auto simp: is_templateRef_def split: sum.splits)
  from m(2) have "js_truthy m"
    by (cases m) simp_all
  with m(1) show ?thesis
    by (simp add: js_truthy_member_def)
qed

lemma createEmbeddedView_append:
  "createEmbeddedView t r None vc =
     (if is_templateRef t
      then Inr (\<lparr>view_id = next_view_id vc, view_template = t, view_context = r\<rparr>,
          vc\<lparr>views := views vc @ [\<lparr>view_id = next_view_id vc, view_template = t, view_context = r\<rparr>],
             next_view_id := Suc (next_view_id vc),
             calls := calls vc @ [CreateEmbeddedView t r None]\<rparr>)
      else Inl TypeError)"
proof (cases "js_get t ''createEmbeddedView''")
  case (Inl e)
  with js_get_error [OF Inl] show ?thesis
    by (simp add: createEmbeddedView_def is_templateRef_def)
next
  case (Inr m)
  then show ?thesis
    by (simp add: createEmbeddedView_def is_templateRef_def Let_def)
qed



lemma updateView_outcome: "fst (updateView s) = Inr () \<or> fst (updateView s) = Inl TypeError"
  by (simp add: updateView_def createEmbeddedView_append Let_def)

lemma updateView_ok:
  "template_or_null (if_thenTemplateRef s) \<Longrightarrow> template_or_null (if_elseTemplateRef s) \<Longrightarrow>
   fst (updateView s) = Inr ()"
  by (simp add: updateView_def createEmbeddedView_append Let_def template_or_null_def)




lemma updateView_at_most_one:
  "at_most_one_view s \<Longrightarrow> at_most_one_view (snd (updateView s))"
  by (cases "js_truthy (ctx_implicit (if_context s))"; cases "if_thenViewRef s"; cases "if_elseViewRef s";
      cases "js_truthy (if_thenTemplateRef s)"; cases "js_truthy (if_elseTemplateRef s)";
      cases "is_templateRef (if_thenTemplateRef s)"; cases "is_templateRef (if_elseTemplateRef s)")
    (simp_all add: at_most_one_view_def updateView_def createEmbeddedView_append Let_def)

text \<open>
  C9. At most one of \<^verbatim>\<open>_thenViewRef\<close> and \<^verbatim>\<open>_elseViewRef\<close> is set: after the constructor, and
  after every call of the \<^verbatim>\<open>ngIf\<close>, \<^verbatim>\<open>ngIfThen\<close> and \<^verbatim>\<open>ngIfElse\<close> setters on a state where it
  held (completed or not); every call of the \<^verbatim>\<open>ngIf\<close> setter leaves \<^verbatim>\<open>$implicit\<close> and \<^verbatim>\<open>ngIf\<close>
  of the context equal to the condition it was given.
\<close>

theorem NgIf_at_most_one_view:
  "at_most_one_view (NgIf_new vc t r) \<and>
   (at_most_one_view s \<longrightarrow>
      at_most_one_view (snd (set_ngIf v s)) \<and>
      at_most_one_view (snd (set_ngIfThen str v s)) \<and>
      at_most_one_view (snd (set_ngIfElse str v s))) \<and>
   ctx_implicit (if_context (snd (set_ngIf v s))) = v \<and>
   ctx_ngIf (if_context (snd (set_ngIf v s))) = v"
proof -
  have init: "at_most_one_view (NgIf_new vc t r)"
    by (simp add: at_most_one_view_def NgIf_new_def)
  have ctx: "if_context (snd (updateView s')) = if_context s'" for s'
    by (simp add: updateView_def createEmbeddedView_append Let_def)
  have pres: "at_most_one_view (snd (set_ngIf v s)) \<and>
      at_most_one_view (snd (set_ngIfThen str v s)) \<and>
      at_most_one_view (snd (set_ngIfElse str v s))" if inv: "at_most_one_view s"
  proof -
    have a: "at_most_one_view (snd (set_ngIf v s))"
      unfolding set_ngIf_def using inv
      by (intro updateView_at_most_one) (simp add: at_most_one_view_def)
    have "at_most_one_view (s\<lparr>if_thenTemplateRef := v, if_thenViewRef := None\<rparr>)"
      by (simp add: at_most_one_view_def)
    then have b: "at_most_one_view (snd (set_ngIfThen str v s))"
      using inv updateView_at_most_one unfolding set_ngIfThen_def
      by (cases "assertTemplate str ''ngIfThen'' v") simp_all
    have "at_most_one_view (s\<lparr>if_elseTemplateRef := v, if_elseViewRef := None\<rparr>)"
      by (simp add: at_most_one_view_def)
    then have c: "at_most_one_view (snd (set_ngIfElse str v s))"
      using inv updateView_at_most_one unfolding set_ngIfElse_def
      by (cases "assertTemplate str ''ngIfElse'' v") simp_all
    from a b c show ?thesis by blast
  qed
  have c1: "ctx_implicit (if_context (snd (set_ngIf v s))) = v"
    by (simp add: set_ngIf_def ctx)
  have c2: "ctx_ngIf (if_context (snd (set_ngIf v s))) = v"
    by (simp add: set_ngIf_def ctx)
  from init pres c1 c2 show ?thesis by blast
qed

theorem NgIf_at_most_one_view_witness:
  "at_most_one_view NgIf_example \<and>
   at_most_one_view (snd (set_ngIf (JBool True) NgIf_example)) \<and>
   at_most_one_view (snd (set_ngIfThen stringify_example (templateRef_example 1) NgIf_example)) \<and>
   at_most_one_view (snd (set_ngIfElse stringify_example (templateRef_example 2) NgIf_example)) \<and>
   if_thenViewRef (snd (set_ngIf (JBool True) NgIf_example)) \<noteq> None \<and>
   if_elseViewRef (snd (set_ngIfElse stringify_example (templateRef_example 2) NgIf_example)) \<noteq> None"
proof -
  have h: "at_most_one_view NgIf_example"
    by (simp add: at_most_one_view_def NgIf_example_def NgIf_new_def)
  have t: "if_thenViewRef (snd (set_ngIf (JBool True) NgIf_example)) \<noteq> None"
    by (simp add: set_ngIf_def updateView_def createEmbeddedView_append is_templateRef_def
        NgIf_example_def NgIf_new_def templateRef_example_def Let_def)
  have e: "if_elseViewRef (snd (set_ngIfElse stringify_example (templateRef_example 2) NgIf_example)) \<noteq> None"
    by (simp add: set_ngIfElse_def assertTemplate_def updateView_def createEmbeddedView_append
        is_templateRef_def NgIf_example_def NgIf_new_def NgIfContext_new_def
        templateRef_example_def Let_def)
  show ?thesis
    using h t e NgIf_at_most_one_view [of ViewContainerRef_empty "templateRef_example 0" 0
        NgIf_example "JBool True" stringify_example]
      NgIf_at_most_one_view [of ViewContainerRef_empty "templateRef_example 0" 0
        NgIf_example "templateRef_example 1" stringify_example]
      NgIf_at_most_one_view [of ViewContainerRef_empty "templateRef_example 0" 0
        NgIf_example "templateRef_example 2" stringify_example]
    by blast
qed

lemma updateView_context: "if_context (snd (updateView s)) = if_context s"
  by (simp add: updateView_def createEmbeddedView_append Let_def)

lemma updateView_idempotent:
  "fst (updateView (snd (updateView s))) = fst (updateView s) \<and>
   forget_calls (snd (updateView (snd (updateView s)))) = forget_calls (snd (updateView s)) \<and>
   (issued (snd (updateView s)) (snd (updateView (snd (updateView s)))) = [] \<or>
    issued (snd (updateView s)) (snd (updateView (snd (updateView s)))) = [Clear] \<and>
    views (if_viewContainer (snd (updateView s))) = [])"
  by (cases "js_truthy (ctx_implicit (if_context s))"; cases "if_thenViewRef s"; cases "if_elseViewRef s";
      cases "js_truthy (if_thenTemplateRef s)"; cases "js_truthy (if_elseTemplateRef s)";
      cases "is_templateRef (if_thenTemplateRef s)"; cases "is_templateRef (if_elseTemplateRef s)")
    (simp_all add: updateView_def createEmbeddedView_append clear_def Let_def forget_calls_def
      issued_def)

text \<open>
  C10. For every condition \<open>v\<close> and every state of the directive, setting \<^verbatim>\<open>ngIf = v\<close> twice in
  succession leaves the directive and its container (views, with their identities) as
  setting it once does: the second call has the outcome of the first and changes nothing;
  it issues no call to the container, or one \<^verbatim>\<open>clear()\<close> on a container that is already
  empty, so it creates no view and removes none.
\<close>

theorem set_ngIf_idempotent:
  "fst (set_ngIf v (snd (set_ngIf v s))) = fst (set_ngIf v s) \<and>
   forget_calls (snd (set_ngIf v (snd (set_ngIf v s)))) = forget_calls (snd (set_ngIf v s)) \<and>
   views (if_viewContainer (snd (set_ngIf v (snd (set_ngIf v s))))) =
     views (if_viewContainer (snd (set_ngIf v s))) \<and>
   (issued (snd (set_ngIf v s)) (snd (set_ngIf v (snd (set_ngIf v s)))) = [] \<or>
    issued (snd (set_ngIf v s)) (snd (set_ngIf v (snd (set_ngIf v s)))) = [Clear] \<and>
    views (if_viewContainer (snd (set_ngIf v s))) = [])"
proof -
  define c where "c = s\<lparr>if_context := (if_context s)\<lparr>ctx_ngIf := v, ctx_implicit := v\<rparr>\<rparr>"
  define s' where "s' = snd (updateView c)"
  have first: "set_ngIf v s = updateView c"
    by (simp add: set_ngIf_def c_def)
  have "if_context s' = (if_context s)\<lparr>ctx_ngIf := v, ctx_implicit := v\<rparr>"
    by (simp add: s'_def updateView_context c_def)
  then have "s'\<lparr>if_context := (if_context s')\<lparr>ctx_ngIf := v, ctx_implicit := v\<rparr>\<rparr> = s'"
    by simp
  then have second: "set_ngIf v s' = updateView s'"
    by (simp add: set_ngIf_def)
  have idem: "fst (updateView s') = fst (updateView c) \<and>
   forget_calls (snd (updateView s')) = forget_calls s' \<and>
   (issued s' (snd (updateView s')) = [] \<or>
    issued s' (snd (updateView s')) = [Clear] \<and> views (if_viewContainer s') = [])"
    using updateView_idempotent [of c] by (simp add: s'_def)
  then have "views (if_viewContainer (forget_calls (snd (updateView s')))) =
      views (if_viewContainer (forget_calls s'))"
    by simp
  then have vs: "views (if_viewContainer (snd (updateView s'))) = views (if_viewContainer s')"
    by (simp add: forget_calls_def)
  from idem vs show ?thesis
    unfolding first s'_def [symmetric] second by simp
qed

lemma instantiate_append:
  "instantiate t s =
     (if is_templateRef t
      then (Inr (), s\<lparr>if_viewContainer := (if_viewContainer s)
        \<lparr>views := views (if_viewContainer s) @
            [\<lparr>view_id = next_view_id (if_viewContainer s), view_template = t,
              view_context = if_context_ref s\<rparr>],
         next_view_id := Suc (next_view_id (if_viewContainer s)),
         calls := calls (if_viewContainer s) @ [CreateEmbeddedView t (if_context_ref s) None]\<rparr>\<rparr>)
      else (Inl TypeError, s))"
  by (simp add: instantiate_def createEmbeddedView_append)

lemma updateView_refines:
  assumes "cache_ok c" and "same_inputs c n"
  shows "cache_ok (snd (updateView c)) \<and>
    same_inputs (snd (updateView c)) (snd (naive_updateView n))"
proof -
  from assms(2) have eq: "if_context n = if_context c" "if_context_ref n = if_context_ref c"
    "if_thenTemplateRef n = if_thenTemplateRef c" "if_elseTemplateRef n = if_elseTemplateRef c"
    "shape n = shape c"
    by (simp_all add: same_inputs_def)
  have t: "js_truthy (if_thenTemplateRef c)" if "is_templateRef (if_thenTemplateRef c)"
    using that by (rule is_templateRef_truthy)
  have e: "js_truthy (if_elseTemplateRef c)" if "is_templateRef (if_elseTemplateRef c)"
    using that by (rule is_templateRef_truthy)
  show ?thesis
    using assms(1) eq t e
    by (cases "js_truthy (ctx_implicit (if_context c))"; cases "if_thenViewRef c"; cases "if_elseViewRef c";
        cases "js_truthy (if_thenTemplateRef c)"; cases "js_truthy (if_elseTemplateRef c)";
        cases "is_templateRef (if_thenTemplateRef c)"; cases "is_templateRef (if_elseTemplateRef c)")
      (simp_all add: updateView_def naive_updateView_def instantiate_append
        createEmbeddedView_append clear_def Let_def cache_ok_def same_inputs_def shape_def)
qed

lemma invoke_refines:
  assumes "cache_ok c" and "same_inputs c n"
  shows "cache_ok (snd (invoke str call c)) \<and>
    same_inputs (snd (invoke str call c)) (snd (naive_invoke str call n))"
proof (cases call)
  case (Set_ngIf v)
  let ?f = "\<lambda>s. s\<lparr>if_context := (if_context s)\<lparr>ctx_ngIf := v, ctx_implicit := v\<rparr>\<rparr>"
  have "cache_ok (?f c)" and "same_inputs (?f c) (?f n)"
    using assms by (simp_all add: cache_ok_def same_inputs_def shape_def)
  then show ?thesis
    using updateView_refines [of "?f c" "?f n"] Set_ngIf by (simp add: set_ngIf_def)
next
  case (Set_ngIfThen v)
  let ?f = "\<lambda>s. s\<lparr>if_thenTemplateRef := v, if_thenViewRef := None\<rparr>"
  let ?g = "\<lambda>s. s\<lparr>if_thenTemplateRef := v\<rparr>"
  have "cache_ok (?f c)" and "same_inputs (?f c) (?g n)"
    using assms by (simp_all add: cache_ok_def same_inputs_def shape_def)
  then show ?thesis
    using updateView_refines [of "?f c" "?g n"] Set_ngIfThen assms
    by (cases "assertTemplate str ''ngIfThen'' v") (simp_all add: set_ngIfThen_def)
next
  case (Set_ngIfElse v)
  let ?f = "\<lambda>s. s\<lparr>if_elseTemplateRef := v, if_elseViewRef := None\<rparr>"
  let ?g = "\<lambda>s. s\<lparr>if_elseTemplateRef := v\<rparr>"
  have "cache_ok (?f c)" and "same_inputs (?f c) (?g n)"
    using assms by (simp_all add: cache_ok_def same_inputs_def shape_def)
  then show ?thesis
    using updateView_refines [of "?f c" "?g n"] Set_ngIfElse assms
    by (cases "assertTemplate str ''ngIfElse'' v") (simp_all add: set_ngIfElse_def)
qed

lemma run_refines:
  "cache_ok c \<Longrightarrow> same_inputs c n \<Longrightarrow> same_inputs (snd (run str cs c)) (snd (naive_run str cs n))"
proof (induction cs arbitrary: c n)
  case Nil
  then show ?case by simp
next
  case (Cons call cs)
  obtain r c' where c': "invoke str call c = (r, c')"
    by (cases "invoke str call c")
  obtain r' n' where n': "naive_invoke str call n = (r', n')"
    by (cases "naive_invoke str call n")
  from invoke_refines [OF Cons.prems, of str call] c' n'
  have step: "cache_ok c'" "same_inputs c' n'"
    by simp_all
  from Cons.IH [OF step] c' n' show ?case
    by (cases "run str cs c'"; cases "naive_run str cs n'") simp
qed

text \<open>
  C3. For every sequence of \<^verbatim>\<open>ngIf\<close>, \<^verbatim>\<open>ngIfThen\<close> and \<^verbatim>\<open>ngIfElse\<close> invocations on a new
  directive, the cached \<^verbatim>\<open>_updateView\<close> is observationally equivalent to the naive stateless
  rule that on each update clears the container, then instantiates the then-template
  exactly when the condition is truthy, and the else-template exactly when the condition is
  falsy and an else-template is set: the final containers hold views of the same templates
  bound to the same context object, and the directive contexts are equal.
\<close>

theorem updateView_refines_naive:
  "observe (snd (run str cs (NgIf_new vc t r))) = observe (snd (naive_run str cs (NgIf_new vc t r)))"
proof -
  have "cache_ok (NgIf_new vc t r)"
    by (simp add: cache_ok_def NgIf_new_def)
  moreover have "same_inputs (NgIf_new vc t r) (NgIf_new vc t r)"
    by (simp add: same_inputs_def)
  ultimately show ?thesis
    using run_refines [of "NgIf_new vc t r" "NgIf_new vc t r" str cs]
    by (simp add: observe_def same_inputs_def)
qed

theorem updateView_refines_naive_witness:
  "observe (snd (naive_run stringify_example [Set_ngIfThen JNull, Set_ngIfElse (templateRef_example 1), Set_ngIf (JBool True),
       Set_ngIf JNull] NgIf_example)) =
     ([(templateRef_example 1, 0)], \<lparr>ctx_implicit = JNull, ctx_ngIf = JNull\<rparr>) \<and>
   observe (snd (naive_run stringify_example [Set_ngIfThen JNull, Set_ngIf (JBool True)] NgIf_example)) =
     ([], \<lparr>ctx_implicit = JBool True, ctx_ngIf = JBool True\<rparr>)"
proof -
  have a: "observe (snd (run stringify_example [Set_ngIfThen JNull, Set_ngIfElse (templateRef_example 1), Set_ngIf (JBool True),
       Set_ngIf JNull] NgIf_example)) =
     ([(templateRef_example 1, 0)], \<lparr>ctx_implicit = JNull, ctx_ngIf = JNull\<rparr>)"
    by (simp add: observe_def shape_def set_ngIfThen_def set_ngIfElse_def set_ngIf_def
        assertTemplate_def updateView_def createEmbeddedView_append is_templateRef_def clear_def
        NgIf_example_def NgIf_new_def NgIfContext_new_def ViewContainerRef_empty_def
        templateRef_example_def Let_def)
  have b: "observe (snd (run stringify_example [Set_ngIfThen JNull, Set_ngIf (JBool True)] NgIf_example)) =
     ([], \<lparr>ctx_implicit = JBool True, ctx_ngIf = JBool True\<rparr>)"
    by (simp add: observe_def shape_def set_ngIfThen_def set_ngIf_def
        assertTemplate_def updateView_def createEmbeddedView_append is_templateRef_def clear_def
        NgIf_example_def NgIf_new_def NgIfContext_new_def ViewContainerRef_empty_def
        templateRef_example_def Let_def)
  from a b
    updateView_refines_naive [of stringify_example "[Set_ngIfThen JNull,
       Set_ngIfElse (templateRef_example 1), Set_ngIf (JBool True), Set_ngIf JNull]"
       ViewContainerRef_empty "templateRef_example 0" 0]
    updateView_refines_naive [of stringify_example "[Set_ngIfThen JNull, Set_ngIf (JBool True)]"
       ViewContainerRef_empty "templateRef_example 0" 0]
  show ?thesis
    by (simp add: NgIf_example_def)
qed

section \<open>Properties of NgForOf\<close>

subsection \<open>Lists and the heap\<close>

lemma take_drop_disjoint: "distinct xs \<Longrightarrow> set (take i xs) \<inter> set (drop i xs) = {}"
  by (metis append_take_drop_id distinct_append)

lemma distinct_insert_at:
  assumes "distinct xs" and "a \<notin> set xs"
  shows "distinct (take i xs @ a # drop i xs)"
proof -
  have "a \<notin> set (take i xs)" "a \<notin> set (drop i xs)"
    using assms(2) by (auto dest: in_set_takeD in_set_dropD)
  then show ?thesis
    using assms(1) take_drop_disjoint [OF assms(1), of i] by (auto simp: distinct_drop)
qed

lemma distinct_delete_at:
  assumes "distinct xs"
  shows "distinct (take i xs @ drop (Suc i) xs)"
proof -
  have "set (drop (Suc i) xs) \<subseteq> set (drop i xs)"
    by (simp add: set_drop_subset_set_drop)
  then show ?thesis
    using assms take_drop_disjoint [OF assms, of i] by (auto simp: distinct_drop)
qed

lemma map_remove1_distinct:
  "distinct (map f xs) \<Longrightarrow> x \<in> set xs \<Longrightarrow> map f (remove1 x xs) = remove1 (f x) (map f xs)"
proof (induction xs)
  case Nil
  then show ?case by simp
next
  case (Cons y ys)
  show ?case
  proof (cases "x = y")
    case True
    then show ?thesis by simp
  next
    case False
    with Cons.prems have xin: "x \<in> set ys" by simp
    from Cons.prems have "f y \<notin> f ` set ys" by simp
    with xin have "f x \<noteq> f y" by (metis imageI)
    with Cons xin False show ?thesis by simp
  qed
qed

lemma heap_update_length: "length (heap_update a g h) = length h"
  by (simp add: heap_update_def)

lemma heap_update_nth:
  "b < length h \<Longrightarrow> heap_update a g h ! b = (if a = b then g (h ! b) else h ! b)"
  by (simp add: heap_update_def)

subsection \<open>The container operations keep the contexts separate\<close>

lemma createEmbeddedView_separate:
  assumes "distinct (map view_context (views vc))"
    and "list_all (\<lambda>v. view_context v < n) (views vc)"
    and "createEmbeddedView t n idx vc = Inr (v, vc')"
  shows "distinct (map view_context (views vc')) \<and>
    list_all (\<lambda>v. view_context v < Suc n) (views vc')"
proof -
  define i where "i = (case idx of None \<Rightarrow> length (views vc) | Some k \<Rightarrow> k)"
  define w where "w = \<lparr>view_id = next_view_id vc, view_template = t, view_context = n\<rparr>"
  from assms(3) have vs: "views vc' = take i (views vc) @ w # drop i (views vc)"
    by (auto simp: createEmbeddedView_def Let_def i_def w_def split: if_splits sum.splits)
  have fresh: "n \<notin> set (map view_context (views vc))"
    using assms(2) by (auto simp: list_all_iff)
  have "distinct (take i (map view_context (views vc)) @ n # drop i (map view_context (views vc)))"
    using assms(1) fresh by (rule distinct_insert_at)
  then have d: "distinct (map view_context (views vc'))"
    by (simp add: vs take_map drop_map w_def)
  have "list_all (\<lambda>v. view_context v < Suc n) (views vc')"
    using assms(2) unfolding vs list_all_iff
    by (auto simp: w_def dest!: in_set_takeD in_set_dropD)
  with d show ?thesis by simp
qed

lemma remove_separate:
  assumes "distinct (map view_context (views vc))"
    and "list_all P (views vc)"
    and "remove idx vc = Inr vc'"
  shows "distinct (map view_context (views vc')) \<and> list_all P (views vc')"
proof (cases idx)
  case None
  with assms(3) have vs: "views vc' = butlast (views vc)"
    by (auto simp: remove_def)
  have "distinct (butlast (map view_context (views vc)))"
    using assms(1) by (rule distinct_butlast)
  then have "distinct (map view_context (views vc'))"
    by (simp add: vs map_butlast)
  moreover have "list_all P (views vc')"
    using assms(2) unfolding vs list_all_iff by (auto dest: in_set_butlastD)
  ultimately show ?thesis by simp
next
  case (Some i)
  with assms(3) have vs: "views vc' = take i (views vc) @ drop (Suc i) (views vc)"
    by (auto simp: remove_def split: if_splits)
  have "distinct (take i (map view_context (views vc)) @ drop (Suc i) (map view_context (views vc)))"
    using assms(1) by (rule distinct_delete_at)
  then have "distinct (map view_context (views vc'))"
    by (simp add: vs take_map drop_map)
  moreover have "list_all P (views vc')"
    using assms(2) unfolding vs list_all_iff by (auto dest!: in_set_takeD in_set_dropD)
  ultimately show ?thesis by simp
qed

lemma move_separate:
  assumes "distinct (map view_context (views vc))"
    and "list_all P (views vc)"
    and "v \<in> set (views vc)"
    and "move v i vc = Inr vc'"
  shows "distinct (map view_context (views vc')) \<and> list_all P (views vc')"
proof -
  define rest where "rest = remove1 v (views vc)"
  from assms(4) have vs: "views vc' = take i rest @ v # drop i rest"
    by (auto simp: move_def Let_def rest_def split: if_splits)
  have m: "map view_context rest = remove1 (view_context v) (map view_context (views vc))"
    unfolding rest_def using assms(1,3) by (rule map_remove1_distinct)
  have d: "distinct (map view_context rest)"
    unfolding m using assms(1) by (rule distinct_remove1)
  have "view_context v \<notin> set (map view_context rest)"
    unfolding m using assms(1) by simp
  with d have "distinct (take i (map view_context rest) @ view_context v # drop i (map view_context rest))"
    by (rule distinct_insert_at)
  then have "distinct (map view_context (views vc'))"
    by (simp add: vs take_map drop_map)
  moreover have "set rest \<subseteq> set (views vc)"
    unfolding rest_def by (rule set_remove1_subset)
  then have "list_all P (views vc')"
    using assms(2,3) unfolding vs list_all_iff by (auto dest!: in_set_takeD in_set_dropD)
  ultimately show ?thesis by simp
qed

lemma get_in_set: "get vc p = Some v \<Longrightarrow> v \<in> set (views vc)"
  by (auto simp: get_def split: if_splits)

lemma applyOperation_separate:
  assumes "contexts_separate s"
  shows "contexts_separate (snd (applyOperation operation s))"
proof -
  obtain rcd adj cur where op: "operation = (rcd, adj, cur)"
    by (cases operation)
  let ?vc = "for_viewContainer s"
  from assms have d: "distinct (map view_context (views ?vc))"
    and a: "list_all (\<lambda>v. view_context v < length (for_heap s)) (views ?vc)"
    by (simp_all add: contexts_separate_def)
  show ?thesis
  proof (cases "previousIndex rcd")
    case None note True = this
    let ?n = "length (for_heap s)"
    show ?thesis
    proof (cases "createEmbeddedView (for_template s) ?n cur ?vc")
      case (Inl e)
      with True a d show ?thesis
        by (auto simp: applyOperation_def op Let_def contexts_separate_def list_all_iff)
    next
      case (Inr r)
      then obtain v vc' where r: "createEmbeddedView (for_template s) ?n cur ?vc = Inr (v, vc')"
        by (cases r) simp
      from createEmbeddedView_separate [OF d a r] True r show ?thesis
        by (simp add: applyOperation_def op Let_def contexts_separate_def)
    qed
  next
    case (Some q) note False = this
    show ?thesis
    proof (cases cur)
      case None
      show ?thesis
      proof (cases "remove adj ?vc")
        case (Inl e)
        with False None assms show ?thesis
          by (simp add: applyOperation_def op)
      next
        case (Inr vc')
        from remove_separate [OF d a Inr] False None Inr show ?thesis
          by (simp add: applyOperation_def op contexts_separate_def)
      qed
    next
      case (Some ci)
      show ?thesis
      proof (cases adj)
        case None
        with False Some assms show ?thesis
          by (simp add: applyOperation_def op)
      next
        case (Some p) note adj = this
        show ?thesis
        proof (cases "get ?vc p")
          case None
          with False \<open>cur = Some ci\<close> adj assms show ?thesis
            by (simp add: applyOperation_def op)
        next
          case (Some view)
          show ?thesis
          proof (cases "move view ci ?vc")
            case (Inl e)
            with False \<open>cur = Some ci\<close> adj Some assms show ?thesis
              by (simp add: applyOperation_def op)
          next
            case (Inr vc')
            from move_separate [OF d a get_in_set [OF Some] Inr] False \<open>cur = Some ci\<close> adj Some Inr
            show ?thesis
              by (simp add: applyOperation_def op contexts_separate_def applyViewChange_def
                  heap_update_length)
          qed
        qed
      qed
    qed
  qed
qed

lemma forEachOperation_separate:
  "contexts_separate s \<Longrightarrow> contexts_separate (snd (forEachOperation ops s))"
proof (induction ops arbitrary: s)
  case Nil
  then show ?case by simp
next
  case (Cons operation rest)
  obtain r s' where r: "applyOperation operation s = (r, s')"
    by (cases "applyOperation operation s")
  from applyOperation_separate [OF Cons.prems, of operation] r have s': "contexts_separate s'"
    by simp
  show ?case
  proof (cases r)
    case (Inl e)
    with r s' show ?thesis by simp
  next
    case (Inr u)
    with r Cons.IH [OF s'] show ?thesis by simp
  qed
qed

subsection \<open>Renumbering\<close>

lemma renumber_fold:
  assumes d: "distinct (map view_context vs)"
    and a: "list_all (\<lambda>v. view_context v < length h) vs"
    and n: "n \<le> length vs"
  shows "length (fold (renumber_step vs ilen f) [0..<n] h) = length h \<and>
    (\<forall>i<n. index (fold (renumber_step vs ilen f) [0..<n] h ! view_context (vs ! i)) = int i \<and>
            count (fold (renumber_step vs ilen f) [0..<n] h ! view_context (vs ! i)) = int ilen \<and>
            ngForOf (fold (renumber_step vs ilen f) [0..<n] h ! view_context (vs ! i)) = f)"
  using n
proof (induction n)
  case 0
  then show ?case by simp
next
  case (Suc n)
  let ?h = "fold (renumber_step vs ilen f) [0..<n] h"
  let ?h' = "fold (renumber_step vs ilen f) [0..<Suc n] h"
  from Suc have IH: "length ?h = length h"
    "\<And>i. i < n \<Longrightarrow> index (?h ! view_context (vs ! i)) = int i \<and>
       count (?h ! view_context (vs ! i)) = int ilen \<and> ngForOf (?h ! view_context (vs ! i)) = f"
    by simp_all
  have step: "?h' = renumber_step vs ilen f n ?h"
    by simp
  have bound: "view_context (vs ! i) < length ?h" if "i < length vs" for i
    using a that IH(1) by (simp add: list_all_length)
  have len: "length ?h' = length h"
    by (simp add: step renumber_step_def heap_update_length IH(1))
  have "index (?h' ! view_context (vs ! i)) = int i \<and>
       count (?h' ! view_context (vs ! i)) = int ilen \<and> ngForOf (?h' ! view_context (vs ! i)) = f"
    if i: "i < Suc n" for i
  proof (cases "i = n")
    case True
    with Suc.prems bound [of n] show ?thesis
      by (simp add: step renumber_step_def heap_update_nth)
  next
    case False
    with i have lt: "i < n" by simp
    have ne: "view_context (vs ! n) \<noteq> view_context (vs ! i)"
      using nth_eq_iff_index_eq [OF d, of i n] lt Suc.prems by auto
    have "?h' ! view_context (vs ! i) = ?h ! view_context (vs ! i)"
      using bound [of i] lt Suc.prems ne by (simp add: step renumber_step_def heap_update_nth)
    with IH(2) [OF lt] show ?thesis by simp
  qed
  with len show ?case by blast
qed

lemma renumber_numbered:
  assumes "contexts_separate s"
  shows "contexts_numbered (renumber s) \<and> contexts_separate (renumber s)"
proof -
  let ?vs = "views (for_viewContainer s)"
  from assms have d: "distinct (map view_context ?vs)"
    and a: "list_all (\<lambda>v. view_context v < length (for_heap s)) ?vs"
    by (simp_all add: contexts_separate_def)
  from renumber_fold [OF d a order_refl, of "length ?vs" "for_ngForOf s"] d a
  show ?thesis
    by (simp add: contexts_numbered_def contexts_separate_def context_at_def renumber_def Let_def)
qed

lemma applyViewChange_keeps:
  assumes "contexts_numbered s" and "contexts_separate s"
  shows "contexts_numbered (applyViewChange v r s) \<and> contexts_separate (applyViewChange v r s)"
proof -
  have sep: "contexts_separate (applyViewChange v r s)"
    using assms(2) by (simp add: contexts_separate_def applyViewChange_def heap_update_length)
  have "index (context_at (applyViewChange v r s) i) = index (context_at s i) \<and>
        count (context_at (applyViewChange v r s) i) = count (context_at s i) \<and>
        ngForOf (context_at (applyViewChange v r s) i) = ngForOf (context_at s i)"
    if "i < length (views (for_viewContainer s))" for i
  proof -
    have "view_context (views (for_viewContainer s) ! i) < length (for_heap s)"
      using assms(2) that by (simp add: contexts_separate_def list_all_length)
    then show ?thesis
      by (simp add: context_at_def applyViewChange_def heap_update_nth)
  qed
  with assms(1) have "contexts_numbered (applyViewChange v r s)"
    by (simp add: contexts_numbered_def applyViewChange_def)
  with sep show ?thesis by simp
qed

lemma forEachIdentityChange_keeps:
  "contexts_numbered s \<Longrightarrow> contexts_separate s \<Longrightarrow>
   contexts_numbered (snd (forEachIdentityChange rs s)) \<and>
   contexts_separate (snd (forEachIdentityChange rs s))"
proof (induction rs arbitrary: s)
  case Nil
  then show ?case by simp
next
  case (Cons r rs)
  show ?case
  proof (cases "currentIndex r")
    case None
    with Cons.prems show ?thesis by simp
  next
    case (Some i)
    show ?thesis
    proof (cases "get (for_viewContainer s) i")
      case None
      with Some Cons.prems show ?thesis by simp
    next
      case (Some v)
      from applyViewChange_keeps [OF Cons.prems, of v r]
      have "contexts_numbered (applyViewChange v r s)" "contexts_separate (applyViewChange v r s)"
        by simp_all
      from Cons.IH [OF this] Some \<open>currentIndex r = Some i\<close> show ?thesis by simp
    qed
  qed
qed

lemma applyChanges_separate:
  assumes "contexts_separate s"
  shows "contexts_separate (snd (applyChanges ch s))"
proof -
  obtain r s1 where r: "forEachOperation (operations ch) s = (r, s1)"
    by (cases "forEachOperation (operations ch) s")
  from forEachOperation_separate [OF assms, of "operations ch"] r have s1: "contexts_separate s1"
    by simp
  show ?thesis
  proof (cases r)
    case (Inl e)
    with r s1 show ?thesis by (simp add: applyChanges_def)
  next
    case (Inr u)
    from renumber_numbered [OF s1] forEachIdentityChange_keeps [of "renumber s1" "identityChanges ch"]
    have "contexts_separate (snd (forEachIdentityChange (identityChanges ch) (renumber s1)))"
      by simp
    with r Inr show ?thesis by (simp add: applyChanges_def)
  qed
qed

lemma applyChanges_numbered:
  assumes "contexts_separate s" and "applyChanges ch s = (Inr (), s')"
  shows "contexts_numbered s'"
proof -
  obtain r s1 where r: "forEachOperation (operations ch) s = (r, s1)"
    by (cases "forEachOperation (operations ch) s")
  from forEachOperation_separate [OF assms(1), of "operations ch"] r have s1: "contexts_separate s1"
    by simp
  from assms(2) r have s': "s' = snd (forEachIdentityChange (identityChanges ch) (renumber s1))"
    by (cases r) (auto simp: applyChanges_def)
  from renumber_numbered [OF s1] forEachIdentityChange_keeps [of "renumber s1" "identityChanges ch"]
  show ?thesis unfolding s' by simp
qed

text \<open>Every method of the directive keeps the contexts of its views separate.\<close>

lemma NgForOf_contexts_separate_kept:
  assumes "contexts_separate s"
  shows "contexts_separate (snd (ngDoCheck e s)) \<and> contexts_separate (set_ngForOf v s) \<and>
    contexts_separate (snd (set_ngForTrackBy e fn s)) \<and> contexts_separate (set_ngForTemplate v s)"
proof -
  have differ: "contexts_separate (snd (ngDoCheck_differ e s'))" if "contexts_separate s'" for s'
    using that
    by (auto simp: ngDoCheck_differ_def contexts_separate_def Let_def split: sum.splits)
  have diff: "contexts_separate (snd (ngDoCheck_diff s'))" if s': "contexts_separate s'" for s'
  proof (cases "for_differ s'")
    case None
    with s' show ?thesis by (simp add: ngDoCheck_diff_def)
  next
    case (Some d)
    show ?thesis
    proof (cases "differ_diff d (differ_state d) (for_ngForOf s')")
      case (Inl err)
      with Some s' show ?thesis by (simp add: ngDoCheck_diff_def)
    next
      case (Inr r)
      obtain changes st where r: "r = (changes, st)" by (cases r)
      let ?s1 = "s'\<lparr>for_differ := Some (d\<lparr>differ_state := st\<rparr>)\<rparr>"
      from s' have s1: "contexts_separate ?s1"
        by (simp add: contexts_separate_def)
      show ?thesis
      proof (cases changes)
        case None
        with Some Inr r s1 show ?thesis by (simp add: ngDoCheck_diff_def)
      next
        case (Some ch)
        from applyChanges_separate [OF s1, of ch] \<open>for_differ s' = Some d\<close> Inr r Some
        show ?thesis by (simp add: ngDoCheck_diff_def)
      qed
    qed
  qed
  have check: "contexts_separate (snd (ngDoCheck e s))"
  proof -
    obtain r s' where r: "ngDoCheck_differ e s = (r, s')"
      by (cases "ngDoCheck_differ e s")
    from differ [OF assms] r have s': "contexts_separate s'" by simp
    show ?thesis
    proof (cases r)
      case (Inl err)
      with r s' show ?thesis by (simp add: ngDoCheck_def)
    next
      case (Inr u)
      with r diff [OF s'] show ?thesis by (simp add: ngDoCheck_def)
    qed
  qed
  have setters: "contexts_separate (set_ngForOf v s) \<and>
    contexts_separate (snd (set_ngForTrackBy e fn s)) \<and> contexts_separate (set_ngForTemplate v s)"
    using assms
    by (simp add: contexts_separate_def set_ngForOf_def set_ngForTrackBy_def set_ngForTemplate_def
        split: option.splits)
  from check setters show ?thesis by simp
qed

text \<open>
  C4. After every completed call of \<^verbatim>\<open>_applyChanges\<close>, for every position \<open>i\<close> of the view
  container, the context of the view at \<open>i\<close> has \<open>index = i\<close>, \<open>count\<close> the length of the
  container and \<open>ngForOf\<close> the current iterable; no view keeps the placeholders \<open>-1\<close>. The
  views of the container have context objects of their own: that holds for the
  constructor's empty container and is kept by \<^verbatim>\<open>_applyChanges\<close>.
\<close>

theorem applyChanges_contexts_numbered:
  "contexts_separate (NgForOf_new ViewContainerRef_empty t ds h) \<and>
   (contexts_separate s \<and> applyChanges ch s = (Inr (), s') \<longrightarrow>
      contexts_separate s' \<and>
      (\<forall>i < length (views (for_viewContainer s')).
         index (context_at s' i) = int i \<and>
         count (context_at s' i) = int (length (views (for_viewContainer s'))) \<and>
         ngForOf (context_at s' i) = for_ngForOf s' \<and>
         index (context_at s' i) \<noteq> - 1 \<and> count (context_at s' i) \<noteq> - 1))"
proof -
  have init: "contexts_separate (NgForOf_new ViewContainerRef_empty t ds h)"
    by (simp add: contexts_separate_def NgForOf_new_def ViewContainerRef_empty_def)
  have post: "contexts_separate s' \<and>
      (\<forall>i < length (views (for_viewContainer s')).
         index (context_at s' i) = int i \<and>
         count (context_at s' i) = int (length (views (for_viewContainer s'))) \<and>
         ngForOf (context_at s' i) = for_ngForOf s' \<and>
         index (context_at s' i) \<noteq> - 1 \<and> count (context_at s' i) \<noteq> - 1)"
    if sep: "contexts_separate s" and fin: "applyChanges ch s = (Inr (), s')"
  proof -
    from applyChanges_separate [OF sep, of ch] fin have "contexts_separate s'" by simp
    moreover from applyChanges_numbered [OF sep fin]
    have "\<forall>i < length (views (for_viewContainer s')).
         index (context_at s' i) = int i \<and>
         count (context_at s' i) = int (length (views (for_viewContainer s'))) \<and>
         ngForOf (context_at s' i) = for_ngForOf s' \<and>
         index (context_at s' i) \<noteq> - 1 \<and> count (context_at s' i) \<noteq> - 1"
      by (auto simp: contexts_numbered_def)
    ultimately show ?thesis by simp
  qed
  from init post show ?thesis by blast
qed

theorem applyChanges_contexts_numbered_witness:
  "contexts_separate (set_ngForOf (JArr [JStr ''a'', JStr ''b'']) NgForOf_example) \<and>
   fst (applyChanges (insert_all [JStr ''a'', JStr ''b''])
          (set_ngForOf (JArr [JStr ''a'', JStr ''b'']) NgForOf_example)) = Inr () \<and>
   length (views (for_viewContainer (snd (applyChanges (insert_all [JStr ''a'', JStr ''b''])
          (set_ngForOf (JArr [JStr ''a'', JStr ''b'']) NgForOf_example))))) = 2 \<and>
   index (context_at (snd (applyChanges (insert_all [JStr ''a'', JStr ''b''])
          (set_ngForOf (JArr [JStr ''a'', JStr ''b'']) NgForOf_example))) 1) = 1 \<and>
   count (context_at (snd (applyChanges (insert_all [JStr ''a'', JStr ''b''])
          (set_ngForOf (JArr [JStr ''a'', JStr ''b'']) NgForOf_example))) 1) = 2"
proof -
  let ?s = "set_ngForOf (JArr [JStr ''a'', JStr ''b'']) NgForOf_example"
  let ?ch = "insert_all [JStr ''a'', JStr ''b'']"
  have sep: "contexts_separate ?s"
    by (simp add: contexts_separate_def set_ngForOf_def NgForOf_example_def NgForOf_new_def
        ViewContainerRef_empty_def)
  have ok: "fst (applyChanges ?ch ?s) = Inr ()"
    by code_simp
  have len: "length (views (for_viewContainer (snd (applyChanges ?ch ?s)))) = 2"
    by code_simp
  from ok have run: "applyChanges ?ch ?s = (Inr (), snd (applyChanges ?ch ?s))"
    by (cases "applyChanges ?ch ?s") simp
  from applyChanges_contexts_numbered [of "templateRef_example 0" array_differs "[]" ?s ?ch
      "snd (applyChanges ?ch ?s)"] sep run
  have "\<forall>i < length (views (for_viewContainer (snd (applyChanges ?ch ?s)))).
         index (context_at (snd (applyChanges ?ch ?s)) i) = int i \<and>
         count (context_at (snd (applyChanges ?ch ?s)) i) =
           int (length (views (for_viewContainer (snd (applyChanges ?ch ?s)))))"
    by blast
  then have "index (context_at (snd (applyChanges ?ch ?s)) 1) = 1 \<and>
     count (context_at (snd (applyChanges ?ch ?s)) 1) = 2"
    unfolding len by simp
  with sep ok len show ?thesis by simp
qed

subsection \<open>The ngForTrackBy setter\<close>

text \<open>
  Where \<^verbatim>\<open>JSON.stringify\<close> is not reached or does not throw, the setter completes and the
  getter returns the value it was given.
\<close>

lemma set_ngForTrackBy_stores:
  "\<not> (ngDevMode e \<and> console_warn e \<and> \<not> js_nullish fn \<and> js_typeof fn \<noteq> ''function'' \<and>
       JSON_stringify_error (toJSON_error e) fn \<noteq> None) \<Longrightarrow>
   fst (set_ngForTrackBy e fn s) = Inr () \<and> ngForTrackBy_get (snd (set_ngForTrackBy e fn s)) = fn"
  by (auto simp: set_ngForTrackBy_def ngForTrackBy_get_def)

text \<open>
  C6. The \<^verbatim>\<open>ngForTrackBy\<close> setter is to store every value and never throw. In dev mode with
  a console, the value \<^verbatim>\<open>10n\<close> (a BigInt: not \<^verbatim>\<open>null\<close>, not a function) reaches
  \<^verbatim>\<open>JSON.stringify(fn)\<close> in the text of the warning, which throws a TypeError before
  \<^verbatim>\<open>this._trackByFn = fn\<close>: the setter throws and the getter still returns \<^verbatim>\<open>undefined\<close>.
\<close>

theorem set_ngForTrackBy_bigint_throws:
  "js_typeof (JBigInt 10) = ''bigint'' \<and>
   set_ngForTrackBy dev_env (JBigInt 10) NgForOf_example =
     (Inl (JsonTypeError (JBigInt 10)), NgForOf_example) \<and>
   ngForTrackBy_get (snd (set_ngForTrackBy dev_env (JBigInt 10) NgForOf_example)) = JUndefined"
  by (simp add: set_ngForTrackBy_def dev_env_def ngForTrackBy_get_def NgForOf_example_def
      NgForOf_new_def)

subsection \<open>ngDoCheck\<close>

lemma no_differ_for_iff:
  "no_differ_for s \<longleftrightarrow>
     for_differ s = None \<and> js_truthy (for_ngForOf s) \<and>
     isl (find_create (for_differs s) (for_ngForOf s) (for_trackByFn s))"
  by (simp add: no_differ_for_def find_create_def differs_find_def split: option.splits)

lemma ngDoCheck_differ_throws:
  assumes "for_ngForOfDirty s" and "for_differ s = None" and "js_truthy (for_ngForOf s)"
    and "find_create (for_differs s) (for_ngForOf s) (for_trackByFn s) = Inl err"
  shows "ngDoCheck e s =
    (Inl (if ngDevMode e then ngFor_error e (for_ngForOf s) else err), s\<lparr>for_ngForOfDirty := False\<rparr>)"
  using assms
  by (simp add: ngDoCheck_def ngDoCheck_differ_def ngForTrackBy_get_def Let_def)

lemma ngFor_error_message:
  "to_text e v = None \<Longrightarrow> getTypeName v = Inr n \<Longrightarrow> to_text e n = None \<Longrightarrow>
   ngFor_error e v = NgForDifferError v"
  by (simp add: ngFor_error_def)

text \<open>
  C2, as stated: \<^verbatim>\<open>ngDoCheck\<close> throws exactly when there is no differ yet, the value is truthy
  and no factory supports it. With \<^verbatim>\<open>ngForOf = 5\<close> the first \<^verbatim>\<open>ngDoCheck\<close> throws, having
  cleared \<^verbatim>\<open>_ngForOfDirty\<close>; the state it leaves is such a state, and the next \<^verbatim>\<open>ngDoCheck\<close>
  completes without a throw.
\<close>

theorem ngDoCheck_again_counterexample:
  "fst (ngDoCheck dev_env (set_ngForOf (JNum 5) NgForOf_example)) = Inl (NgForDifferError (JNum 5)) \<and>
   for_differ (snd (ngDoCheck dev_env (set_ngForOf (JNum 5) NgForOf_example))) = None \<and>
   js_truthy (for_ngForOf (snd (ngDoCheck dev_env (set_ngForOf (JNum 5) NgForOf_example)))) \<and>
   List.find (\<lambda>f. supports f (for_ngForOf (snd (ngDoCheck dev_env (set_ngForOf (JNum 5) NgForOf_example)))))
     (for_differs (snd (ngDoCheck dev_env (set_ngForOf (JNum 5) NgForOf_example)))) = None \<and>
   fst (ngDoCheck dev_env (snd (ngDoCheck dev_env (set_ngForOf (JNum 5) NgForOf_example)))) = Inr ()"
  by (simp add: ngDoCheck_def ngDoCheck_differ_def ngDoCheck_diff_def find_create_def
      differs_find_def ngFor_error_def getTypeName_def ngForTrackBy_get_def
      set_ngForOf_def NgForOf_example_def NgForOf_new_def array_differs_def
      dev_env_def Let_def)

text \<open>
  C2, amended. For every state of NgForOf: \<^verbatim>\<open>ngDoCheck\<close> throws from its differ-creation
  step exactly when \<^verbatim>\<open>_ngForOfDirty\<close> is set, no differ has been created yet, the current
  \<^verbatim>\<open>ngForOf\<close> value is truthy, and the registry has no factory supporting it or the factory
  it finds throws in \<^verbatim>\<open>create\<close>. In dev mode the error is NgFor's own (``NgFor only
  supports binding to Iterables''), unless a conversion throws while its message is built
  from \<^verbatim>\<open>`${value}`\<close> and \<^verbatim>\<open>getTypeName(value)\<close>, which is then the error; in production mode
  it is the registry's or the factory's. On that throw \<^verbatim>\<open>_differ\<close> remains \<^verbatim>\<open>null\<close>,
  \<^verbatim>\<open>_ngForOfDirty\<close> has been cleared and the view container is untouched. In every other
  state that step completes and \<^verbatim>\<open>ngDoCheck\<close> goes on to the differ's \<^verbatim>\<open>diff\<close>. When the value
  is falsy (\<^verbatim>\<open>null\<close> and \<^verbatim>\<open>undefined\<close> are) and no differ exists, \<^verbatim>\<open>ngDoCheck\<close> creates no
  differ, throws nothing and performs no view-container operation.
\<close>

theorem ngDoCheck_differ_throws_iff:
  "(for_ngForOfDirty s \<and> no_differ_for s \<longrightarrow>
      (\<exists>err. ngDoCheck e s = (Inl err, s\<lparr>for_ngForOfDirty := False\<rparr>)) \<and>
      (ngDevMode e \<longrightarrow>
         ngDoCheck e s = (Inl (ngFor_error e (for_ngForOf s)), s\<lparr>for_ngForOfDirty := False\<rparr>)) \<and>
      (ngDevMode e \<and> to_text e (for_ngForOf s) = None \<and> getTypeName (for_ngForOf s) = Inr n \<and>
       to_text e n = None \<longrightarrow>
         ngDoCheck e s = (Inl (NgForDifferError (for_ngForOf s)), s\<lparr>for_ngForOfDirty := False\<rparr>)) \<and>
      (ngDevMode e \<and> to_text e (for_ngForOf s) = Some err' \<longrightarrow>
         ngDoCheck e s = (Inl err', s\<lparr>for_ngForOfDirty := False\<rparr>)) \<and>
      (\<not> ngDevMode e \<and>
       find_create (for_differs s) (for_ngForOf s) (for_trackByFn s) = Inl err' \<longrightarrow>
         ngDoCheck e s = (Inl err', s\<lparr>for_ngForOfDirty := False\<rparr>)) \<and>
      (\<not> ngDevMode e \<and>
       List.find (\<lambda>f. supports f (for_ngForOf s)) (for_differs s) = None \<longrightarrow>
         ngDoCheck e s = (Inl (FindDifferError (for_ngForOf s)), s\<lparr>for_ngForOfDirty := False\<rparr>))) \<and>
   (\<not> (for_ngForOfDirty s \<and> no_differ_for s) \<longrightarrow>
      fst (ngDoCheck_differ e s) = Inr () \<and>
      ngDoCheck e s = ngDoCheck_diff (snd (ngDoCheck_differ e s))) \<and>
   (for_differ s = None \<and> \<not> js_truthy (for_ngForOf s) \<longrightarrow>
      ngDoCheck e s = (Inr (), s\<lparr>for_ngForOfDirty := False\<rparr>))"
proof -
  let ?s' = "s\<lparr>for_ngForOfDirty := False\<rparr>"
  let ?v = "for_ngForOf s"
  have a: "(\<exists>err. ngDoCheck e s = (Inl err, ?s')) \<and>
      (ngDevMode e \<longrightarrow> ngDoCheck e s = (Inl (ngFor_error e ?v), ?s')) \<and>
      (ngDevMode e \<and> to_text e ?v = None \<and> getTypeName ?v = Inr n \<and> to_text e n = None \<longrightarrow>
         ngDoCheck e s = (Inl (NgForDifferError ?v), ?s')) \<and>
      (ngDevMode e \<and> to_text e ?v = Some err' \<longrightarrow> ngDoCheck e s = (Inl err', ?s')) \<and>
      (\<not> ngDevMode e \<and> find_create (for_differs s) ?v (for_trackByFn s) = Inl err' \<longrightarrow>
         ngDoCheck e s = (Inl err', ?s')) \<and>
      (\<not> ngDevMode e \<and> List.find (\<lambda>f. supports f ?v) (for_differs s) = None \<longrightarrow>
         ngDoCheck e s = (Inl (FindDifferError ?v), ?s'))"
    if d: "for_ngForOfDirty s" and nd: "no_differ_for s"
  proof -
    from nd have n: "for_differ s = None" and t: "js_truthy ?v"
      and "isl (find_create (for_differs s) ?v (for_trackByFn s))"
      by (simp_all add: no_differ_for_iff)
    then obtain err where err: "find_create (for_differs s) ?v (for_trackByFn s) = Inl err"
      by (auto simp: isl_def)
    note r = ngDoCheck_differ_throws [OF d n t err, of e]
    have 1: "\<exists>err. ngDoCheck e s = (Inl err, ?s')"
      using r by blast
    have 2: "ngDoCheck e s = (Inl (ngFor_error e ?v), ?s')" if "ngDevMode e"
      using r that by simp
    have 3: "ngDoCheck e s = (Inl (NgForDifferError ?v), ?s')"
      if "ngDevMode e" "to_text e ?v = None" "getTypeName ?v = Inr n" "to_text e n = None"
      using 2 [OF that(1)] ngFor_error_message [OF that(2,3,4)] by simp
    have 4: "ngDoCheck e s = (Inl err', ?s')" if "ngDevMode e" "to_text e ?v = Some err'"
      using 2 [OF that(1)] that(2) by (simp add: ngFor_error_def)
    have 5: "ngDoCheck e s = (Inl err', ?s')"
      if "\<not> ngDevMode e" "find_create (for_differs s) ?v (for_trackByFn s) = Inl err'"
      using r that err by simp
    have 6: "ngDoCheck e s = (Inl (FindDifferError ?v), ?s')"
      if "\<not> ngDevMode e" "List.find (\<lambda>f. supports f ?v) (for_differs s) = None"
    proof -
      from that(2) have "find_create (for_differs s) ?v (for_trackByFn s) = Inl (FindDifferError ?v)"
        by (simp add: find_create_def differs_find_def)
      with err r that(1) show ?thesis by simp
    qed
    from 1 2 3 4 5 6 show ?thesis by blast
  qed
  have b: "fst (ngDoCheck_differ e s) = Inr () \<and>
      ngDoCheck e s = ngDoCheck_diff (snd (ngDoCheck_differ e s))"
    if "\<not> (for_ngForOfDirty s \<and> no_differ_for s)"
  proof (cases "for_ngForOfDirty s \<and> for_differ s = None \<and> js_truthy ?v")
    case True
    with that have "\<not> isl (find_create (for_differs s) ?v (for_trackByFn s))"
      by (simp add: no_differ_for_iff)
    then obtain d where "find_create (for_differs s) ?v (for_trackByFn s) = Inr d"
      by (cases "find_create (for_differs s) ?v (for_trackByFn s)") simp_all
    with True show ?thesis
      by (simp add: ngDoCheck_def ngDoCheck_differ_def ngForTrackBy_get_def Let_def)
  next
    case False
    then show ?thesis
      by (auto simp: ngDoCheck_def ngDoCheck_differ_def Let_def)
  qed
  have c: "ngDoCheck e s = (Inr (), ?s')"
    if "for_differ s = None" "\<not> js_truthy ?v"
    using that
    by (cases "for_ngForOfDirty s")
      (simp_all add: ngDoCheck_def ngDoCheck_differ_def ngDoCheck_diff_def Let_def)
  from a b c show ?thesis by blast
qed

theorem ngDoCheck_differ_throws_iff_witness:
  "for_ngForOfDirty (set_ngForOf (JNum 5) NgForOf_example) \<and>
   no_differ_for (set_ngForOf (JNum 5) NgForOf_example) \<and>
   ngDoCheck dev_env (set_ngForOf (JNum 5) NgForOf_example) =
     (Inl (NgForDifferError (JNum 5)),
      (set_ngForOf (JNum 5) NgForOf_example)\<lparr>for_ngForOfDirty := False\<rparr>) \<and>
   no_differ_for (set_ngForOf (JObj [(''toString'', JNull)]) NgForOf_example) \<and>
   ngDoCheck dev_env (set_ngForOf (JObj [(''toString'', JNull)]) NgForOf_example) =
     (Inl TypeError,
      (set_ngForOf (JObj [(''toString'', JNull)]) NgForOf_example)\<lparr>for_ngForOfDirty := False\<rparr>) \<and>
   no_differ_for (set_ngForOf (JArr [])
     (NgForOf_new ViewContainerRef_empty (templateRef_example 0) broken_differs [])) \<and>
   ngDoCheck (dev_env\<lparr>ngDevMode := False\<rparr>) (set_ngForOf (JArr [])
     (NgForOf_new ViewContainerRef_empty (templateRef_example 0) broken_differs [])) =
     (Inl (Thrown (JStr ''no differ'')),
      (set_ngForOf (JArr []) (NgForOf_new ViewContainerRef_empty (templateRef_example 0)
         broken_differs []))\<lparr>for_ngForOfDirty := False\<rparr>) \<and>
   \<not> no_differ_for (set_ngForOf (JArr []) NgForOf_example) \<and>
   fst (ngDoCheck_differ dev_env (set_ngForOf (JArr []) NgForOf_example)) = Inr () \<and>
   for_differ NgForOf_example = None \<and> \<not> js_truthy (for_ngForOf NgForOf_example) \<and>
   ngDoCheck dev_env NgForOf_example = (Inr (), NgForOf_example\<lparr>for_ngForOfDirty := False\<rparr>)"
proof -
  let ?s5 = "set_ngForOf (JNum 5) NgForOf_example"
  let ?so = "set_ngForOf (JObj [(''toString'', JNull)]) NgForOf_example"
  let ?sb = "set_ngForOf (JArr [])
     (NgForOf_new ViewContainerRef_empty (templateRef_example 0) broken_differs [])"
  let ?sa = "set_ngForOf (JArr []) NgForOf_example"
  have h1: "for_ngForOfDirty ?s5 \<and> no_differ_for ?s5"
    by (simp add: no_differ_for_def set_ngForOf_def NgForOf_example_def NgForOf_new_def
        array_differs_def)
  have m1: "ngDevMode dev_env \<and> to_text dev_env (for_ngForOf ?s5) = None \<and>
     getTypeName (for_ngForOf ?s5) = Inr (JStr ''number'') \<and>
     to_text dev_env (JStr ''number'') = None"
    by (simp add: dev_env_def set_ngForOf_def getTypeName_def)
  have v1: "for_ngForOf ?s5 = JNum 5"
    by (simp add: set_ngForOf_def)
  have h2: "for_ngForOfDirty ?so \<and> no_differ_for ?so"
    by (simp add: no_differ_for_def set_ngForOf_def NgForOf_example_def NgForOf_new_def
        array_differs_def)
  have m2: "ngDevMode dev_env \<and> to_text dev_env (for_ngForOf ?so) = Some TypeError"
    by (simp add: dev_env_def set_ngForOf_def)
  have h3: "for_ngForOfDirty ?sb \<and> no_differ_for ?sb"
    by (simp add: no_differ_for_def set_ngForOf_def NgForOf_new_def broken_differs_def)
  have m3: "\<not> ngDevMode (dev_env\<lparr>ngDevMode := False\<rparr>) \<and>
     find_create (for_differs ?sb) (for_ngForOf ?sb) (for_trackByFn ?sb) =
       Inl (Thrown (JStr ''no differ''))"
    by (simp add: find_create_def differs_find_def set_ngForOf_def NgForOf_new_def
        broken_differs_def)
  have h4: "\<not> no_differ_for ?sa"
    by (simp add: no_differ_for_def set_ngForOf_def NgForOf_example_def NgForOf_new_def
        array_differs_def)
  have h5: "for_differ NgForOf_example = None \<and> \<not> js_truthy (for_ngForOf NgForOf_example)"
    by (simp add: NgForOf_example_def NgForOf_new_def)
  note t1 = ngDoCheck_differ_throws_iff [of ?s5 dev_env "JStr ''number''" TypeError]
  note t2 = ngDoCheck_differ_throws_iff [of ?so dev_env "JStr ''number''" TypeError]
  note t3 = ngDoCheck_differ_throws_iff [of ?sb "dev_env\<lparr>ngDevMode := False\<rparr>" "JStr ''number''"
      "Thrown (JStr ''no differ'')"]
  note t4 = ngDoCheck_differ_throws_iff [of ?sa dev_env "JStr ''number''" TypeError]
  note t5 = ngDoCheck_differ_throws_iff [of NgForOf_example dev_env "JStr ''number''" TypeError]
  from t1 h1 m1 have c1: "ngDoCheck dev_env ?s5 =
     (Inl (NgForDifferError (for_ngForOf ?s5)), ?s5\<lparr>for_ngForOfDirty := False\<rparr>)"
    by blast
  from t2 h2 m2 have c2: "ngDoCheck dev_env ?so = (Inl TypeError, ?so\<lparr>for_ngForOfDirty := False\<rparr>)"
    by blast
  from t3 h3 m3 have c3: "ngDoCheck (dev_env\<lparr>ngDevMode := False\<rparr>) ?sb =
     (Inl (Thrown (JStr ''no differ'')), ?sb\<lparr>for_ngForOfDirty := False\<rparr>)"
    by blast
  from t4 h4 have c4: "fst (ngDoCheck_differ dev_env ?sa) = Inr ()"
    by blast
  from t5 h5 have c5: "ngDoCheck dev_env NgForOf_example =
     (Inr (), NgForOf_example\<lparr>for_ngForOfDirty := False\<rparr>)"
    by blast
  from h1 h2 h3 h4 h5 c1 [unfolded v1] c2 c3 c4 c5 show ?thesis
    by blast
qed

section \<open>Properties of the options schema\<close>

lemma valid_additionalProperties_false:
  assumes "valid (JObj kws) (JObj ps)" and "map_of kws ''additionalProperties'' = Some (JBool False)"
    and "(k, v) \<in> set ps"
  shows "k \<in> set (declared_properties kws)"
proof -
  from assms(1,2) have "list_all (\<lambda>(k, v). k \<in> set (declared_properties kws) \<or> valid (JBool False) v) ps"
    by (simp add: valid.simps(2))
  with assms(3) show ?thesis
    by (auto simp: list_all_iff valid.simps(1))
qed

lemma valid_property:
  assumes "valid (JObj kws) (JObj ps)" and "map_of kws ''properties'' = Some (JObj subs)"
    and "(name, sub) \<in> set subs" and "map_of ps name = Some v"
  shows "valid sub v"
proof -
  from assms(1,2)
  have "list_all (\<lambda>(name, sub). case map_of ps name of None \<Rightarrow> True | Some v \<Rightarrow> valid sub v) subs"
    by (simp add: valid.simps(2))
  with assms(3,4) show ?thesis
    by (auto simp: list_all_iff)
qed

lemma valid_type:
  assumes "valid (JObj kws) d" and "map_of kws ''type'' = Some (JStr t)"
  shows "type_ok t d"
  using assms by (simp add: valid.simps(2))

lemma type_ok_boolean: "type_ok ''boolean'' v \<Longrightarrow> \<exists>b. v = JBool b"
  by (cases v) simp_all

lemma options_names: "map fst options_properties = option_names"
  by (simp add: options_properties_def option_names_def)

text \<open>
  C7. The options schema declares exactly the six properties \<^verbatim>\<open>implementation\<close>,
  \<^verbatim>\<open>sassOptions\<close>, \<^verbatim>\<open>additionalData\<close>, \<^verbatim>\<open>sourceMap\<close>, \<^verbatim>\<open>webpackImporter\<close> and
  \<^verbatim>\<open>warnRuleAsWarning\<close>, with \<^verbatim>\<open>additionalProperties\<close> set to \<^verbatim>\<open>false\<close>; so an options object
  with a key outside these six does not validate, and a value of \<^verbatim>\<open>sourceMap\<close>,
  \<^verbatim>\<open>webpackImporter\<close> or \<^verbatim>\<open>warnRuleAsWarning\<close> in an object that validates is a boolean.
\<close>

theorem options_schema_closed:
  "map fst options_properties = option_names \<and>
   js_get options_schema ''properties'' = Inr (JObj options_properties) \<and>
   js_get options_schema ''additionalProperties'' = Inr (JBool False) \<and>
   (k \<in> set (map fst ps) \<and> k \<notin> set option_names \<longrightarrow> \<not> valid options_schema (JObj ps)) \<and>
   (valid options_schema (JObj ps) \<and>
    name \<in> set [''sourceMap'', ''webpackImporter'', ''warnRuleAsWarning''] \<and>
    map_of ps name = Some v \<longrightarrow> (\<exists>b. v = JBool b))"
proof -
  have p: "js_get options_schema ''properties'' = Inr (JObj options_properties)"
    and a: "js_get options_schema ''additionalProperties'' = Inr (JBool False)"
    by (simp_all add: options_schema_def)
  have decl: "declared_properties [(''title'', JStr ''Sass Loader options''), (''type'', JStr ''object''),
      (''properties'', JObj options_properties), (''additionalProperties'', JBool False)] = option_names"
    by (simp add: options_names)
  have closed: "\<not> valid options_schema (JObj ps)" if "k \<in> set (map fst ps)" "k \<notin> set option_names"
  proof
    assume v: "valid options_schema (JObj ps)"
    from that(1) obtain x where "(k, x) \<in> set ps" by auto
    note kx = this
    have "map_of [(''title'', JStr ''Sass Loader options''), (''type'', JStr ''object''),
      (''properties'', JObj options_properties), (''additionalProperties'', JBool False)]
      ''additionalProperties'' = Some (JBool False)"
      by simp
    from valid_additionalProperties_false [OF v [unfolded options_schema_def] this \<open>(k, x) \<in> set ps\<close>]
    have "k \<in> set option_names" unfolding decl .
    with that(2) show False by simp
  qed
  have bool: "\<exists>b. v = JBool b"
    if v: "valid options_schema (JObj ps)"
      and n: "name \<in> set [''sourceMap'', ''webpackImporter'', ''warnRuleAsWarning'']"
      and m: "map_of ps name = Some v"
  proof -
    from n have "\<exists>d l. map_of options_properties name =
        Some (JObj [(''description'', d), (''link'', l), (''type'', JStr ''boolean'')])"
      by (auto simp: options_properties_def)
    then obtain d l where "(name, JObj [(''description'', d), (''link'', l), (''type'', JStr ''boolean'')])
        \<in> set options_properties"
      by (auto dest: map_of_SomeD)
    note sub = this
    have "map_of [(''title'', JStr ''Sass Loader options''), (''type'', JStr ''object''),
      (''properties'', JObj options_properties), (''additionalProperties'', JBool False)]
      ''properties'' = Some (JObj options_properties)"
      by simp
    from valid_property [OF v [unfolded options_schema_def] this sub m]
    have "valid (JObj [(''description'', d), (''link'', l), (''type'', JStr ''boolean'')]) v" .
    then have "type_ok ''boolean'' v"
      by (rule valid_type) simp
    then show ?thesis by (rule type_ok_boolean)
  qed
  from options_names p a closed bool show ?thesis by blast
qed

theorem options_schema_closed_witness:
  "''foo'' \<in> set (map fst [(''foo'', JNum 1)]) \<and> ''foo'' \<notin> set option_names \<and>
   \<not> valid options_schema (JObj [(''foo'', JNum 1)]) \<and>
   valid options_schema (JObj [(''sourceMap'', JBool True)]) \<and>
   ''sourceMap'' \<in> set [''sourceMap'', ''webpackImporter'', ''warnRuleAsWarning''] \<and>
   map_of [(''sourceMap'', JBool True)] ''sourceMap'' = Some (JBool True) \<and>
   (\<exists>b. JBool True = JBool b)"
proof -
  have h1: "''foo'' \<in> set (map fst [(''foo'', JNum 1)]) \<and> ''foo'' \<notin> set option_names"
    by (simp add: option_names_def)
  have h2: "valid options_schema (JObj [(''sourceMap'', JBool True)])"
    by (simp add: options_schema_def options_properties_def valid.simps)
  have h3: "''sourceMap'' \<in> set [''sourceMap'', ''webpackImporter'', ''warnRuleAsWarning'']"
    by simp
  have h4: "map_of [(''sourceMap'', JBool True)] ''sourceMap'' = Some (JBool True)"
    by simp
  note t1 = options_schema_closed [of "''foo''" "[(''foo'', JNum 1)]" "''sourceMap''" "JBool True"]
  from t1 h1 have c1: "\<not> valid options_schema (JObj [(''foo'', JNum 1)])"
    by blast
  note t2 = options_schema_closed [of "''foo''" "[(''sourceMap'', JBool True)]" "''sourceMap''" "JBool True"]
  from t2 h2 h3 h4 have c2: "\<exists>b. JBool True = JBool b"
    by blast
  from h1 c1 h2 h3 h4 c2 show ?thesis
    by blast
qed

end
